theory Spec2Isabelle
  imports Main
begin

section \<open>The integration store of \<open>tools/data_integration.py\<close>\<close>

text \<open>
  \<open>DataIntegrator.setup_database\<close> creates the tables \<open>apps\<close> and \<open>platforms\<close>, both with
  \<open>id INTEGER PRIMARY KEY AUTOINCREMENT\<close>. A table is the list of its rows in rowid order.
  For an AUTOINCREMENT table SQLite keeps the largest rowid ever handed out
  (\<open>sqlite_sequence\<close>); a new row gets one more than the larger of that number and the
  largest rowid present. The connection remembers the rowid of its last successful insert,
  which is what \<open>cursor.lastrowid\<close> reads after an INSERT statement.

  \<open>platforms.name\<close> is \<open>TEXT UNIQUE\<close>; \<open>apps.url\<close> is \<open>TEXT UNIQUE\<close> and there is a second
  constraint \<open>UNIQUE(url, source_platform)\<close>. In SQLite a NULL never conflicts with anything
  under a UNIQUE constraint, so a nullable column is a \<open>string option\<close> here, with \<open>None\<close>
  for NULL.
\<close>

record platform_row =
  plat_id :: nat
  plat_name :: string
  plat_description :: string
  plat_base_url :: string
  plat_scraping_method :: string
  plat_last_scraped :: string
  plat_total_apps :: nat

record app_row =
  row_id :: nat
  row_name :: string
  row_description :: string
  row_url :: "string option"
  row_source_platform :: string
  row_created_at :: string
  row_updated_at :: string
  row_stars :: "int option"
  row_language :: string

record vibe_apps_db =
  apps :: "app_row list"
  apps_seq :: nat
  platform_rows :: "platform_row list"
  platforms_seq :: nat
  last_insert_rowid :: nat

definition empty_vibe_apps_db :: vibe_apps_db where
  "empty_vibe_apps_db =
     \<lparr>apps = [], apps_seq = 0, platform_rows = [], platforms_seq = 0, last_insert_rowid = 0\<rparr>"

definition max_rowid :: "nat list \<Rightarrow> nat \<Rightarrow> nat" where
  "max_rowid ids seq = fold max ids seq"

definition next_rowid :: "nat list \<Rightarrow> nat \<Rightarrow> nat" where
  "next_rowid ids seq = Suc (max_rowid ids seq)"

text \<open>
  \<open>insert_platform(conn, name, description, base_url, method)\<close> runs
  \<open>INSERT OR REPLACE INTO platforms (name, description, base_url, scraping_method,
  last_scraped)\<close> and returns \<open>cursor.lastrowid\<close>. REPLACE deletes every row that conflicts on
  the unique \<open>name\<close> and then inserts the new row under a new rowid; \<open>total_apps\<close> is not
  in the column list and takes its default 0. The time stamp \<open>datetime.now().isoformat()\<close>
  is the parameter \<open>now\<close>.
\<close>

definition insert_platform ::
  "string \<Rightarrow> string \<Rightarrow> string \<Rightarrow> string \<Rightarrow> string \<Rightarrow> vibe_apps_db \<Rightarrow> nat \<times> vibe_apps_db" where
  "insert_platform now name description base_url method db =
     (let kept = filter (\<lambda>r. plat_name r \<noteq> name) (platform_rows db);
          new_id = next_rowid (map plat_id (platform_rows db)) (platforms_seq db);
          new_row = \<lparr>plat_id = new_id, plat_name = name, plat_description = description,
                     plat_base_url = base_url, plat_scraping_method = method,
                     plat_last_scraped = now, plat_total_apps = 0\<rparr>
      in (new_id, db\<lparr>platform_rows := kept @ [new_row], platforms_seq := new_id,
                      last_insert_rowid := new_id\<rparr>))"


text \<open>
  \<open>insert_app(conn, app_data)\<close>. The dictionaries the four \<open>process_*\<close> methods build
  always carry the keys \<open>name\<close>, \<open>description\<close>, \<open>url\<close>, \<open>source_platform\<close> and
  \<open>created_at\<close>; \<open>stars\<close> may be absent. Each value is read from the JSON project with
  \<open>project.get(key, '')\<close>, which yields the empty string for an absent key and Python's
  \<open>None\<close> for a JSON null, so \<open>url\<close> is a \<open>string option\<close>: \<open>None\<close> is bound as NULL.
  \<open>stars\<close> is absent, \<open>None\<close> or a Python integer of any size; SQLite stores integers
  of 64 bits, and binding a larger one raises \<open>OverflowError\<close>. The columns \<open>license\<close>,
  \<open>topics\<close> and \<open>raw_data\<close> are stored like \<open>language\<close> and are never read again; they
  are left out.
\<close>

datatype py_stars = Absent | PyNone | PyInt int

record app_data =
  ad_name :: string
  ad_description :: string
  ad_url :: "string option"
  ad_source_platform :: string
  ad_created_at :: string
  ad_stars :: py_stars
  ad_language :: string

record stats =
  total_processed :: nat
  bolt_projects :: nat
  duplicates_skipped :: nat
  errors :: nat

definition initial_stats :: stats where
  "initial_stats = \<lparr>total_processed = 0, bolt_projects = 0, duplicates_skipped = 0, errors = 0\<rparr>"

text \<open>Python's truth value of \<open>app_data.get('url')\<close>: \<open>None\<close> and the empty string are false.\<close>

fun url_truthy :: "string option \<Rightarrow> bool" where
  "url_truthy None = False"
| "url_truthy (Some u) = (u \<noteq> [])"

text \<open>\<open>SELECT id FROM apps WHERE url = ?\<close> followed by \<open>fetchone()\<close>, for a string.\<close>

definition select_app_by_url :: "string \<Rightarrow> vibe_apps_db \<Rightarrow> nat option" where
  "select_app_by_url u db = map_option row_id (find (\<lambda>r. row_url r = Some u) (apps db))"

text \<open>
  \<open>INSERT OR IGNORE INTO apps (...)\<close>: the row is dropped silently when its non-NULL
  \<open>url\<close> is already present (the column constraint; the table constraint on
  \<open>(url, source_platform)\<close> can only fire when the column constraint does). Otherwise the
  row is appended under a new rowid. SQLite picks the rowid before it checks the
  constraints, so a dropped row uses up a rowid all the same: the AUTOINCREMENT counter
  moves on, while the table and the connection's last insert rowid stay as they were.
\<close>

definition sqlite_integer :: "int \<Rightarrow> bool" where
  "sqlite_integer n = (- (2 ^ 63) \<le> n \<and> n < 2 ^ 63)"

fun stars_overflow :: "py_stars \<Rightarrow> bool" where
  "stars_overflow (PyInt n) = (\<not> sqlite_integer n)"
| "stars_overflow Absent = False"
| "stars_overflow PyNone = False"

fun stars_column :: "py_stars \<Rightarrow> int option" where
  "stars_column Absent = Some 0"
| "stars_column PyNone = None"
| "stars_column (PyInt n) = Some n"

definition url_conflict :: "string option \<Rightarrow> vibe_apps_db \<Rightarrow> bool" where
  "url_conflict u db = (u \<noteq> None \<and> u \<in> set (map row_url (apps db)))"

definition insert_or_ignore_app :: "string \<Rightarrow> app_data \<Rightarrow> vibe_apps_db \<Rightarrow> vibe_apps_db" where
  "insert_or_ignore_app now ad db =
     (let new_id = next_rowid (map row_id (apps db)) (apps_seq db);
          new_row = \<lparr>row_id = new_id, row_name = ad_name ad,
                     row_description = ad_description ad, row_url = ad_url ad,
                     row_source_platform = ad_source_platform ad,
                     row_created_at = ad_created_at ad, row_updated_at = now,
                     row_stars = stars_column (ad_stars ad),
                     row_language = ad_language ad\<rparr>
      in if url_conflict (ad_url ad) db then db\<lparr>apps_seq := new_id\<rparr>
         else db\<lparr>apps := apps db @ [new_row], apps_seq := new_id,
                  last_insert_rowid := new_id\<rparr>)"

text \<open>
  The body of \<open>insert_app\<close>. The SELECT of the duplicate check binds the URL only. The
  INSERT binds all values: when \<open>stars\<close> does not fit 64 bits the \<open>execute\<close> call raises
  before the statement runs, and the \<open>except\<close> branch counts an error and returns \<open>None\<close>.
  After the INSERT statement \<open>cursor.lastrowid\<close> is the connection's last insert rowid,
  also when the row was ignored; the method returns it when it is non-zero.
\<close>

fun duplicate_url :: "string option \<Rightarrow> vibe_apps_db \<Rightarrow> bool" where
  "duplicate_url None db = False"
| "duplicate_url (Some u) db = (url_truthy (Some u) \<and> select_app_by_url u db \<noteq> None)"

definition insert_app ::
  "string \<Rightarrow> app_data \<Rightarrow> vibe_apps_db \<times> stats \<Rightarrow> nat option \<times> vibe_apps_db \<times> stats" where
  "insert_app now ad s =
     (let db = fst s; st = snd s in
      if duplicate_url (ad_url ad) db
      then (None, db, st\<lparr>duplicates_skipped := duplicates_skipped st + 1\<rparr>)
      else if stars_overflow (ad_stars ad)
      then (None, db, st\<lparr>errors := errors st + 1\<rparr>)
      else
        let db' = insert_or_ignore_app now ad db;
            app_id = last_insert_rowid db'
        in if app_id \<noteq> 0
           then (Some app_id, db', st\<lparr>total_processed := total_processed st + 1\<rparr>)
           else (None, db', st\<lparr>duplicates_skipped := duplicates_skipped st + 1\<rparr>))"

text \<open>
  \<open>process_bolt_projects(conn)\<close>: upsert the platform \<open>Bolt\<close>, then for every loaded
  project build \<open>app_data\<close> and call \<open>insert_app\<close>, counting the calls that returned an id.
  The argument is the list of the dictionaries built in the loop, in order.
\<close>

fun insert_apps :: "string \<Rightarrow> app_data list \<Rightarrow> vibe_apps_db \<times> stats \<Rightarrow> vibe_apps_db \<times> stats" where
  "insert_apps now [] s = s"
| "insert_apps now (ad # ads) s =
     (case insert_app now ad s of
        (Some app_id, db, st) \<Rightarrow> insert_apps now ads (db, st\<lparr>bolt_projects := bolt_projects st + 1\<rparr>)
      | (None, db, st) \<Rightarrow> insert_apps now ads (db, st))"

definition process_bolt_projects ::
  "string \<Rightarrow> app_data list \<Rightarrow> vibe_apps_db \<times> stats \<Rightarrow> vibe_apps_db \<times> stats" where
  "process_bolt_projects now projects s =
     insert_apps now projects
       (snd (insert_platform now ''Bolt'' ''Bolt.new Supabase gallery projects''
               ''https://bolt.new'' ''supabase_api'' (fst s)), snd s)"

section \<open>The store of \<open>tools/process_data.py\<close> and \<open>tools/cleanup_platform_duplicates.py\<close>\<close>

text \<open>
  Modelled from the spec: the schema file \<open>database_schema.sql\<close> of \<open>vibe_coded_apps.db\<close>,
  on which both scripts work, is not part of the sources. The specification gives an
  application a display name, a description, a canonical URL, an external identifier, an
  owning platform reference and time stamps, and a platform an identifier, a name and a
  base URL; the rows below carry these, under the column names the SQL of the two scripts
  uses. A new application row gets a rowid larger than every rowid present, and its
  \<open>updated_at\<close>, which the INSERT does not name, starts as the current time.
  \<open>description\<close> is nullable: GitHub reports a repository without description as
  JSON null.
\<close>

record platform =
  pf_id :: nat
  pf_name :: string
  pf_url :: string

record application =
  app_id :: nat
  app_platform_id :: nat
  app_external_id :: string
  app_name :: string
  app_url :: string
  app_description :: "string option"
  app_updated_at :: string

record vibe_coded_apps_db =
  platforms :: "platform list"
  applications :: "application list"
  applications_seq :: nat

text \<open>\<open>VibeCodedAppsDB.get_platform_id\<close>: the id of the first platform row with the name.\<close>

definition get_platform_id :: "string \<Rightarrow> vibe_coded_apps_db \<Rightarrow> nat option" where
  "get_platform_id platform_name db =
     map_option pf_id (find (\<lambda>p. pf_name p = platform_name) (platforms db))"

text \<open>
  The dictionary \<open>app_data\<close> both processors hand to \<open>_insert_or_update_application\<close>, and the
  method itself; \<open>GitHubDataProcessor\<close> and \<open>V0DataProcessor\<close> have the same body. The SELECT
  picks the first row with the platform and external id; the UPDATE rewrites every row
  whose id is the one selected; \<open>CURRENT_TIMESTAMP\<close> is the parameter \<open>now\<close>.
\<close>

record application_data =
  d_platform_id :: nat
  d_external_id :: string
  d_name :: string
  d_url :: string
  d_description :: "string option"

definition matches :: "application_data \<Rightarrow> application \<Rightarrow> bool" where
  "matches d r = (app_platform_id r = d_platform_id d \<and> app_external_id r = d_external_id d)"

definition update_application :: "string \<Rightarrow> application_data \<Rightarrow> application \<Rightarrow> application" where
  "update_application now d r =
     r\<lparr>app_name := d_name d, app_url := d_url d, app_description := d_description d,
       app_updated_at := now\<rparr>"

definition insert_or_update_application ::
  "string \<Rightarrow> application_data \<Rightarrow> vibe_coded_apps_db \<Rightarrow> nat \<times> vibe_coded_apps_db" where
  "insert_or_update_application now d db =
     (case find (matches d) (applications db) of
        Some r \<Rightarrow>
          (app_id r,
           db\<lparr>applications :=
                map (\<lambda>x. if app_id x = app_id r then update_application now d x else x)
                  (applications db)\<rparr>)
      | None \<Rightarrow>
          (let new_id = next_rowid (map app_id (applications db)) (applications_seq db);
               new_row = \<lparr>app_id = new_id, app_platform_id = d_platform_id d,
                          app_external_id = d_external_id d, app_name = d_name d,
                          app_url = d_url d, app_description = d_description d,
                          app_updated_at = now\<rparr>
           in (new_id, db\<lparr>applications := applications db @ [new_row],
                           applications_seq := new_id\<rparr>)))"

text \<open>
  \<open>process_github_search_results\<close>, as far as the applications table goes. An item without
  a \<open>repository\<close> object, or whose repository has no \<open>id\<close>, a null \<open>id\<close> or the \<open>id\<close> 0, is
  skipped. The external id is \<open>str(repo_id)\<close>. The later statements of the loop body write
  other tables after the application has been committed, and the counters only feed the
  log line; neither is modelled.
\<close>

definition digit_char :: "nat \<Rightarrow> char" where
  "digit_char n = ''0123456789'' ! n"

function str_nat :: "nat \<Rightarrow> string" where
  "str_nat n = (if n < 10 then [digit_char n] else str_nat (n div 10) @ [digit_char (n mod 10)])"
  by pat_completeness auto
termination
  by (relation "measure id") auto

declare str_nat.simps [simp del]

definition str_int :: "int \<Rightarrow> string" where
  "str_int i = (if i < 0 then CHR ''-'' # str_nat (nat (- i)) else str_nat (nat i))"

record github_item =
  repo_id :: "int option"
  repo_full_name :: string
  repo_html_url :: string
  repo_description :: "string option"

definition github_app_data :: "nat \<Rightarrow> int \<Rightarrow> github_item \<Rightarrow> application_data" where
  "github_app_data platform_id rid item =
     \<lparr>d_platform_id = platform_id, d_external_id = str_int rid, d_name = repo_full_name item,
      d_url = repo_html_url item, d_description = repo_description item\<rparr>"

fun process_github_items ::
  "string \<Rightarrow> nat \<Rightarrow> github_item list \<Rightarrow> vibe_coded_apps_db \<Rightarrow> vibe_coded_apps_db" where
  "process_github_items now platform_id [] db = db"
| "process_github_items now platform_id (item # items) db =
     (case repo_id item of
        None \<Rightarrow> process_github_items now platform_id items db
      | Some rid \<Rightarrow>
          if rid = 0 then process_github_items now platform_id items db
          else process_github_items now platform_id items
                 (snd (insert_or_update_application now (github_app_data platform_id rid item) db)))"

definition process_github_search_results ::
  "string \<Rightarrow> github_item list \<Rightarrow> string \<Rightarrow> vibe_coded_apps_db \<Rightarrow> vibe_coded_apps_db" where
  "process_github_search_results now items platform_name db =
     (case get_platform_id platform_name db of
        None \<Rightarrow> db
      | Some platform_id \<Rightarrow>
          if platform_id = 0 then db else process_github_items now platform_id items db)"

text \<open>
  \<open>process_v0_urls\<close>. \<open>_extract_v0_id\<close> searches the URL for the regular expression
  \<open>/community/([^/?]+)\<close>: the leftmost place where \<open>/community/\<close> is followed by at least
  one character other than \<open>/\<close> and \<open>?\<close>, and the longest run of such characters there.
\<close>

definition id_char :: "char \<Rightarrow> bool" where
  "id_char c = (c \<noteq> CHR ''/'' \<and> c \<noteq> CHR ''?'')"

fun extract_v0_id :: "string \<Rightarrow> string option" where
  "extract_v0_id [] = None"
| "extract_v0_id (c # cs) =
     (if take 11 (c # cs) = ''/community/'' \<and> takeWhile id_char (drop 11 (c # cs)) \<noteq> []
      then Some (takeWhile id_char (drop 11 (c # cs)))
      else extract_v0_id cs)"

definition v0_app_data :: "nat \<Rightarrow> string \<Rightarrow> string \<Rightarrow> application_data" where
  "v0_app_data platform_id community_id u =
     \<lparr>d_platform_id = platform_id, d_external_id = community_id,
      d_name = ''v0 Community App '' @ community_id, d_url = u,
      d_description = Some ''v0.dev community application''\<rparr>"

fun process_v0_url_list ::
  "string \<Rightarrow> nat \<Rightarrow> string list \<Rightarrow> vibe_coded_apps_db \<Rightarrow> vibe_coded_apps_db" where
  "process_v0_url_list now platform_id [] db = db"
| "process_v0_url_list now platform_id (u # urls) db =
     (case extract_v0_id u of
        None \<Rightarrow> process_v0_url_list now platform_id urls db
      | Some community_id \<Rightarrow>
          process_v0_url_list now platform_id urls
            (snd (insert_or_update_application now (v0_app_data platform_id community_id u) db)))"

definition process_v0_urls ::
  "string \<Rightarrow> string list \<Rightarrow> string \<Rightarrow> vibe_coded_apps_db \<Rightarrow> vibe_coded_apps_db" where
  "process_v0_urls now urls platform_name db =
     (case get_platform_id platform_name db of
        None \<Rightarrow> db
      | Some platform_id \<Rightarrow>
          if platform_id = 0 then db else process_v0_url_list now platform_id urls db)"

section \<open>\<open>cleanup_platform_duplicates\<close>\<close>

text \<open>
  The script opens a connection, executes \<open>BEGIN TRANSACTION\<close>, runs the loop over
  \<open>duplicates_to_merge\<close>, executes \<open>COMMIT\<close> and then the statistics query of
  \<open>show_updated_stats\<close>, all inside one \<open>try\<close>; the \<open>except\<close> branch executes \<open>ROLLBACK\<close> and
  re-raises, and \<open>finally\<close> closes the connection. Any \<open>cursor.execute\<close> may raise (a locked
  or damaged database file, a violated constraint of the schema): the oracle \<open>fails\<close> says
  which statements do. A connection holds the committed database and the working copy the
  open transaction writes to; what the script leaves behind is the committed database.
\<close>

datatype stmt =
  Begin | CountApps nat | MoveApps nat nat | DeletePlatform nat | Commit | PlatformStats

datatype outcome = Completed | Raised

record duplicate =
  keep_id :: nat
  keep_name :: string
  merge_id :: nat
  merge_name :: string

definition duplicates_to_merge :: "duplicate list" where
  "duplicates_to_merge =
     [\<lparr>keep_id = 12, keep_name = ''GitHub'', merge_id = 6, merge_name = ''github.com''\<rparr>,
      \<lparr>keep_id = 16, keep_name = ''Bolt'', merge_id = 3, merge_name = ''bolt.new''\<rparr>,
      \<lparr>keep_id = 15, keep_name = ''Lovable'', merge_id = 2, merge_name = ''lovable.dev''\<rparr>]"

record connection =
  committed :: vibe_coded_apps_db
  working :: vibe_coded_apps_db

definition connect :: "vibe_coded_apps_db \<Rightarrow> connection" where
  "connect db = \<lparr>committed = db, working = db\<rparr>"

definition commit :: "connection \<Rightarrow> connection" where
  "commit c = c\<lparr>committed := working c\<rparr>"

definition rollback :: "connection \<Rightarrow> connection" where
  "rollback c = c\<lparr>working := committed c\<rparr>"

definition count_apps :: "nat \<Rightarrow> vibe_coded_apps_db \<Rightarrow> nat" where
  "count_apps pid db = length (filter (\<lambda>r. app_platform_id r = pid) (applications db))"

definition move_apps :: "string \<Rightarrow> nat \<Rightarrow> nat \<Rightarrow> vibe_coded_apps_db \<Rightarrow> vibe_coded_apps_db" where
  "move_apps now keep merge db =
     db\<lparr>applications :=
          map (\<lambda>r. if app_platform_id r = merge
                    then r\<lparr>app_platform_id := keep, app_updated_at := now\<rparr> else r)
            (applications db)\<rparr>"

definition delete_platform :: "nat \<Rightarrow> vibe_coded_apps_db \<Rightarrow> vibe_coded_apps_db" where
  "delete_platform pid db = db\<lparr>platforms := filter (\<lambda>p. pf_id p \<noteq> pid) (platforms db)\<rparr>"

text \<open>
  The loop over the pairs, on the working copy. \<open>Inl\<close> carries the statement that raised;
  the exception leaves the loop at once.
\<close>

fun merge_loop ::
  "(stmt \<Rightarrow> bool) \<Rightarrow> string \<Rightarrow> duplicate list \<Rightarrow> vibe_coded_apps_db \<Rightarrow> nat
     \<Rightarrow> stmt + vibe_coded_apps_db \<times> nat" where
  "merge_loop fails now [] w total_moved = Inr (w, total_moved)"
| "merge_loop fails now (dup # rest) w total_moved =
     (if fails (CountApps (merge_id dup)) then Inl (CountApps (merge_id dup))
      else
        let apps_to_move = count_apps (merge_id dup) w in
        if apps_to_move > 0 then
          if fails (MoveApps (keep_id dup) (merge_id dup))
          then Inl (MoveApps (keep_id dup) (merge_id dup))
          else if fails (DeletePlatform (merge_id dup)) then Inl (DeletePlatform (merge_id dup))
          else merge_loop fails now rest
                 (delete_platform (merge_id dup) (move_apps now (keep_id dup) (merge_id dup) w))
                 (total_moved + apps_to_move)
        else if fails (DeletePlatform (merge_id dup)) then Inl (DeletePlatform (merge_id dup))
        else merge_loop fails now rest (delete_platform (merge_id dup) w) total_moved)"

definition cleanup_pairs ::
  "(stmt \<Rightarrow> bool) \<Rightarrow> string \<Rightarrow> duplicate list \<Rightarrow> vibe_coded_apps_db
     \<Rightarrow> vibe_coded_apps_db \<times> outcome" where
  "cleanup_pairs fails now dups db =
     (let conn = connect db in
      if fails Begin then (committed (rollback conn), Raised)
      else
        case merge_loop fails now dups (working conn) 0 of
          Inl e \<Rightarrow> (committed (rollback conn), Raised)
        | Inr (w, total_moved) \<Rightarrow>
            if fails Commit then (committed (rollback (conn\<lparr>working := w\<rparr>)), Raised)
            else if fails PlatformStats
            then (committed (rollback (commit (conn\<lparr>working := w\<rparr>))), Raised)
            else (committed (commit (conn\<lparr>working := w\<rparr>)), Completed))"

definition cleanup_platform_duplicates ::
  "(stmt \<Rightarrow> bool) \<Rightarrow> string \<Rightarrow> vibe_coded_apps_db \<Rightarrow> vibe_coded_apps_db \<times> outcome" where
  "cleanup_platform_duplicates fails now db = cleanup_pairs fails now duplicates_to_merge db"

text \<open>What one pair's two statements do to a database when nothing raises.\<close>

definition merge_pair :: "string \<Rightarrow> duplicate \<Rightarrow> vibe_coded_apps_db \<Rightarrow> vibe_coded_apps_db" where
  "merge_pair now dup db =
     delete_platform (merge_id dup) (move_apps now (keep_id dup) (merge_id dup) db)"

definition platform_ids :: "vibe_coded_apps_db \<Rightarrow> nat set" where
  "platform_ids db = set (map pf_id (platforms db))"

definition references_ok :: "vibe_coded_apps_db \<Rightarrow> bool" where
  "references_ok db = (set (map app_platform_id (applications db)) \<subseteq> platform_ids db)"

section \<open>The paginated fetchers\<close>

text \<open>
  A scraper sees its data source through \<open>requests.get\<close>. The source is a function that
  gives, for the \<open>t\<close>-th request of a run and the page (or offset) that request asks for,
  either an HTTP response with its status code and the records of its JSON body, or a
  transport failure (\<open>requests.exceptions.RequestException\<close>). What a run does besides
  returning is kept as a trace of its requests and of its \<open>time.sleep\<close> calls, in order.
  \<open>response.raise_for_status()\<close> raises for the status codes 400 to 599.
\<close>

datatype 'a response = Response nat "'a list" | RequestFailed

type_synonym 'a source = "nat \<Rightarrow> nat \<Rightarrow> 'a response"

datatype event = Get nat | Sleep nat

definition raises_for_status :: "nat \<Rightarrow> bool" where
  "raises_for_status status = (400 \<le> status \<and> status < 600)"

text \<open>
  \<open>BoltSupabaseScraper.fetch_gallery_projects(limit, offset)\<close> returns the records of the
  body, or the empty list when the request failed or the status raised.
  \<open>fetch_all_projects\<close> asks for offsets 0, 1000, 2000, ... with \<open>limit = 1000\<close> until a
  batch is empty or shorter than the limit, sleeping one second between requests. The
  loop has no other exit, so it is a partial function: \<open>None\<close> means that it never returns.
\<close>

fun fetch_gallery_projects :: "'a response \<Rightarrow> 'a list" where
  "fetch_gallery_projects RequestFailed = []"
| "fetch_gallery_projects (Response status projects) =
     (if raises_for_status status then [] else projects)"

partial_function (option) fetch_all_projects_loop ::
  "'a source \<Rightarrow> nat \<Rightarrow> nat \<Rightarrow> 'a list \<Rightarrow> event list \<Rightarrow> ('a list \<times> event list) option" where
  "fetch_all_projects_loop source t offset all_projects trace =
     (let batch = fetch_gallery_projects (source t offset) in
      if batch = [] then Some (all_projects, trace @ [Get offset])
      else if length batch < 1000 then Some (all_projects @ batch, trace @ [Get offset])
      else fetch_all_projects_loop source (Suc t) (offset + 1000) (all_projects @ batch)
             (trace @ [Get offset, Sleep 1]))"

definition fetch_all_projects :: "'a source \<Rightarrow> ('a list \<times> event list) option" where
  "fetch_all_projects source = fetch_all_projects_loop source 0 0 [] []"

text \<open>
  \<open>JulesPRScraper.fetch_jules_prs_api(per_page, page)\<close> returns the dictionary with
  \<open>items\<close> and \<open>has_more\<close>: on status 403 no items and no \<open>has_more\<close> key (read with the
  default \<open>False\<close>), on a raising status or a failed request no items and \<open>has_more\<close>
  false, otherwise the items of the body and whether there are exactly \<open>per_page\<close> of
  them. \<open>fetch_all_prs_api\<close> asks for pages 1, 2, ... of 100 until a page is empty, or
  \<open>has_more\<close> is false, or 1000 results have been collected. The loop ends for every
  source, which its termination proof shows.
\<close>

fun fetch_jules_prs_api :: "nat \<Rightarrow> 'a response \<Rightarrow> 'a list \<times> bool" where
  "fetch_jules_prs_api per_page RequestFailed = ([], False)"
| "fetch_jules_prs_api per_page (Response status items) =
     (if status = 403 then ([], False)
      else if raises_for_status status then ([], False)
      else (items, length items = per_page))"

function fetch_all_prs_loop ::
  "'a source \<Rightarrow> nat \<Rightarrow> nat \<Rightarrow> 'a list \<Rightarrow> event list \<Rightarrow> 'a list \<times> event list" where
  "fetch_all_prs_loop source t page all_prs trace =
     (let response = fetch_jules_prs_api 100 (source t page);
          items = fst response
      in if items = [] then (all_prs, trace @ [Get page])
         else if \<not> snd response then (all_prs @ items, trace @ [Get page])
         else if length (all_prs @ items) \<ge> 1000
         then (all_prs @ items, trace @ [Get page, Sleep 1])
         else fetch_all_prs_loop source (Suc t) (Suc page) (all_prs @ items)
                (trace @ [Get page, Sleep 1]))"
  by pat_completeness auto
termination
  by (relation "measure (\<lambda>(source, t, page, all_prs, trace). 1000 - length all_prs)")
    (auto simp: neq_Nil_conv)

declare fetch_all_prs_loop.simps [simp del]

definition fetch_all_prs_api :: "'a source \<Rightarrow> 'a list \<times> event list" where
  "fetch_all_prs_api source = fetch_all_prs_loop source 0 1 [] []"

text \<open>
  \<open>GitHubCodeSearchProcessor.search_code_files(query, per_page, max_results)\<close>. On status
  403 the loop sleeps 60 seconds and goes round again with the same page (\<open>continue\<close>);
  on any other status than 200, and on any exception, it leaves the loop. A page of
  results is added; the loop ends when \<open>max_results\<close> is set (not \<open>None\<close>, not 0) and
  reached, when the page is shorter than \<open>per_page\<close>, or, after the two-second sleep, when
  1000 results have been collected. \<open>None\<close> means that the call never returns.
\<close>

fun reached :: "nat option \<Rightarrow> nat \<Rightarrow> bool" where
  "reached None n = False"
| "reached (Some max_results) n = (max_results \<noteq> 0 \<and> n \<ge> max_results)"

fun truncate_to :: "nat option \<Rightarrow> 'a list \<Rightarrow> 'a list" where
  "truncate_to None xs = xs"
| "truncate_to (Some max_results) xs = take max_results xs"

partial_function (option) search_code_loop ::
  "'a source \<Rightarrow> nat \<Rightarrow> nat option \<Rightarrow> nat \<Rightarrow> nat \<Rightarrow> 'a list \<Rightarrow> event list
     \<Rightarrow> ('a list \<times> event list) option" where
  "search_code_loop source per_page max_results t page all_files trace =
     (case source t page of
        RequestFailed \<Rightarrow> Some (all_files, trace @ [Get page])
      | Response status items \<Rightarrow>
          if status = 403
          then search_code_loop source per_page max_results (Suc t) page all_files
                 (trace @ [Get page, Sleep 60])
          else if status \<noteq> 200 then Some (all_files, trace @ [Get page])
          else if items = [] then Some (all_files, trace @ [Get page])
          else if reached max_results (length (all_files @ items))
          then Some (truncate_to max_results (all_files @ items), trace @ [Get page])
          else if length items < per_page then Some (all_files @ items, trace @ [Get page])
          else if length (all_files @ items) \<ge> 1000
          then Some (all_files @ items, trace @ [Get page, Sleep 2])
          else search_code_loop source per_page max_results (Suc t) (Suc page)
                 (all_files @ items) (trace @ [Get page, Sleep 2]))"

definition search_code_files :: "'a source \<Rightarrow> nat \<Rightarrow> nat option \<Rightarrow> ('a list \<times> event list) option" where
  "search_code_files source per_page max_results =
     search_code_loop source per_page max_results 0 1 [] []"

definition requests :: "event list \<Rightarrow> nat list" where
  "requests trace = concat (map (\<lambda>e. case e of Get page \<Rightarrow> [page] | Sleep s \<Rightarrow> []) trace)"

section \<open>The record normalizers\<close>

text \<open>
  A raw record is a JSON value; JSON numbers are taken to be integers. A JSON object is in
  Python a \<open>dict\<close> with string keys: a list of key-value pairs with pairwise different
  keys, read with \<open>map_of\<close>. \<open>project.get(key, default)\<close> yields the value stored under
  the key, also when that value is null, and the default only when the key is absent;
  without a default it yields \<open>None\<close>. On a value that is not an object, \<open>project.get\<close>
  raises \<open>AttributeError\<close>.
\<close>

datatype json =
  JNull | JBool bool | JInt int | JStr string | JList "json list" | JObj "(string \<times> json) list"

type_synonym py_dict = "(string \<times> json) list"

datatype py_error = AttributeError

definition dict_get :: "py_dict \<Rightarrow> string \<Rightarrow> json \<Rightarrow> json" where
  "dict_get d key dflt = (case map_of d key of None \<Rightarrow> dflt | Some v \<Rightarrow> v)"

text \<open>
  \<open>LovableScraper.process_project\<close> returns one dictionary literal, built unconditionally
  from \<open>project.get\<close> calls.
\<close>

definition lovable_record :: "py_dict \<Rightarrow> py_dict" where
  "lovable_record project =
     [(''id'', dict_get project ''id'' JNull),
      (''workspace_id'', dict_get project ''workspace_id'' JNull),
      (''title'', dict_get project ''name'' (dict_get project ''title'' (JStr []))),
      (''description'', dict_get project ''description'' (JStr [])),
      (''created_at'', dict_get project ''created_at'' JNull),
      (''updated_at'', dict_get project ''updated_at'' JNull),
      (''created_by'', dict_get project ''created_by'' (JStr [])),
      (''user_id'', dict_get project ''user_id'' JNull),
      (''user_display_name'', dict_get project ''user_display_name'' (JStr [])),
      (''user_photo_url'', dict_get project ''user_photo_url'' (JStr [])),
      (''url'', dict_get project ''url'' (JStr [])),
      (''latest_screenshot_url'', dict_get project ''latest_screenshot_url'' (JStr [])),
      (''status'', dict_get project ''status'' (JStr [])),
      (''is_published'', dict_get project ''is_published'' (JBool False)),
      (''visibility'', dict_get project ''visibility'' (JStr [])),
      (''featured'', dict_get project ''featured'' (JBool False)),
      (''featured_at'', dict_get project ''featured_at'' JNull),
      (''feature_source'', dict_get project ''feature_source'' (JStr [])),
      (''feature_rank'', dict_get project ''feature_rank'' JNull),
      (''edit_count'', dict_get project ''edit_count'' (JInt 0)),
      (''user_message_count'', dict_get project ''user_message_count'' (JInt 0)),
      (''remix_count'', dict_get project ''remix_count'' (JInt 0)),
      (''source'', JStr ''lovable_community''),
      (''platform'', JStr ''Lovable''),
      (''ai_tool'', JStr ''GPT-4'')]"

fun lovable_process_project :: "json \<Rightarrow> py_error + py_dict" where
  "lovable_process_project (JObj project) = Inr (lovable_record project)"
| "lovable_process_project other = Inl AttributeError"

text \<open>\<open>BoltSupabaseScraper.process_project\<close>.\<close>

definition bolt_record :: "py_dict \<Rightarrow> py_dict" where
  "bolt_record project =
     [(''id'', dict_get project ''id'' JNull),
      (''title'', dict_get project ''title'' (JStr [])),
      (''description'', dict_get project ''description'' (JStr [])),
      (''start_date'', dict_get project ''start_date'' JNull),
      (''author'', dict_get project ''author'' (JStr [])),
      (''author_email'', dict_get project ''author_email'' (JStr [])),
      (''author_social'', dict_get project ''author_social'' (JStr [])),
      (''slug'', dict_get project ''slug'' (JStr [])),
      (''published'', dict_get project ''published'' (JBool False)),
      (''status'', dict_get project ''status'' (JStr [])),
      (''project_url'', dict_get project ''project_url'' (JStr [])),
      (''project_preview'', dict_get project ''project_preview'' (JStr [])),
      (''thumbnail_image'', dict_get project ''thumbnail_image'' (JStr [])),
      (''category_slugs'', dict_get project ''category_slugs'' (JList [])),
      (''categories'', dict_get project ''categories'' (JList [])),
      (''source'', JStr ''bolt_gallery''),
      (''platform'', JStr ''Bolt''),
      (''ai_tool'', JStr ''Claude'')]"

fun bolt_process_project :: "json \<Rightarrow> py_error + py_dict" where
  "bolt_process_project (JObj project) = Inr (bolt_record project)"
| "bolt_process_project other = Inl AttributeError"

text \<open>
  Both \<open>main\<close> functions normalise what was fetched with the list comprehension
  \<open>[scraper.process_project(project) for project in raw_projects]\<close>: one output per raw
  record, in order; an exception of one call ends the comprehension.
\<close>

fun process_all :: "(json \<Rightarrow> py_error + py_dict) \<Rightarrow> json list \<Rightarrow> py_error + py_dict list" where
  "process_all process_project [] = Inr []"
| "process_all process_project (project # raw_projects) =
     (case process_project project of
        Inl e \<Rightarrow> Inl e
      | Inr processed \<Rightarrow>
          (case process_all process_project raw_projects of
             Inl e \<Rightarrow> Inl e
           | Inr rest \<Rightarrow> Inr (processed # rest)))"

definition lovable_process_all :: "json list \<Rightarrow> py_error + py_dict list" where
  "lovable_process_all raw_projects = process_all lovable_process_project raw_projects"

definition bolt_process_all :: "json list \<Rightarrow> py_error + py_dict list" where
  "bolt_process_all raw_projects = process_all bolt_process_project raw_projects"

section \<open>Notions the properties are stated with\<close>

text \<open>
  The identity key of an application row and of a record, the invariant that the keys of
  the stored rows are pairwise different, and the rows that carry a given key.
\<close>

definition app_key :: "application \<Rightarrow> nat \<times> string" where
  "app_key r = (app_platform_id r, app_external_id r)"

definition data_key :: "application_data \<Rightarrow> nat \<times> string" where
  "data_key d = (d_platform_id d, d_external_id d)"

definition unique_keys :: "vibe_coded_apps_db \<Rightarrow> bool" where
  "unique_keys db = distinct (map app_key (applications db))"

definition rows_with_key :: "nat \<times> string \<Rightarrow> vibe_coded_apps_db \<Rightarrow> application list" where
  "rows_with_key k db = filter (\<lambda>r. app_key r = k) (applications db)"

text \<open>
  Both ingestion methods of \<open>process_data.py\<close> upsert, in order, the records of the items
  they do not skip.
\<close>

definition upsert_all ::
  "string \<Rightarrow> application_data list \<Rightarrow> vibe_coded_apps_db \<Rightarrow> vibe_coded_apps_db" where
  "upsert_all now ds db = fold (\<lambda>d b. snd (insert_or_update_application now d b)) ds db"

fun github_data_list :: "nat \<Rightarrow> github_item list \<Rightarrow> application_data list" where
  "github_data_list pid [] = []"
| "github_data_list pid (item # items) =
     (case repo_id item of
        None \<Rightarrow> github_data_list pid items
      | Some rid \<Rightarrow>
          if rid = 0 then github_data_list pid items
          else github_app_data pid rid item # github_data_list pid items)"

fun v0_data_list :: "nat \<Rightarrow> string list \<Rightarrow> application_data list" where
  "v0_data_list pid [] = []"
| "v0_data_list pid (u # urls) =
     (case extract_v0_id u of
        None \<Rightarrow> v0_data_list pid urls
      | Some community_id \<Rightarrow> v0_app_data pid community_id u # v0_data_list pid urls)"

text \<open>The URLs (NULL included) of the rows of the integration store.\<close>

definition stored_urls :: "vibe_apps_db \<Rightarrow> string option set" where
  "stored_urls db = set (map row_url (apps db))"

section \<open>Sample stores and datasets\<close>

text \<open>Concrete inputs, used where a property is run on an example.\<close>

definition null_url_project :: app_data where
  "null_url_project =
     \<lparr>ad_name = ''Untitled'', ad_description = [], ad_url = None, ad_source_platform = ''bolt'',
      ad_created_at = [], ad_stars = PyInt 0, ad_language = []\<rparr>"

definition bolt_project_a :: app_data where
  "bolt_project_a =
     \<lparr>ad_name = ''Todo'', ad_description = ''A todo app'', ad_url = Some ''https://bolt.new/a'',
      ad_source_platform = ''bolt'', ad_created_at = ''2025-01-01'', ad_stars = PyInt 3,
      ad_language = ''TypeScript''\<rparr>"

definition bolt_project_b :: app_data where
  "bolt_project_b =
     \<lparr>ad_name = ''Notes'', ad_description = [], ad_url = Some [],
      ad_source_platform = ''bolt'', ad_created_at = [], ad_stars = Absent, ad_language = []\<rparr>"

definition github_db :: vibe_coded_apps_db where
  "github_db =
     \<lparr>platforms = [\<lparr>pf_id = 6, pf_name = ''github.com'', pf_url = ''https://github.com''\<rparr>,
                   \<lparr>pf_id = 7, pf_name = ''v0.dev'', pf_url = ''https://v0.dev''\<rparr>],
      applications = [], applications_seq = 0\<rparr>"

definition github_items :: "github_item list" where
  "github_items =
     [\<lparr>repo_id = Some 42, repo_full_name = ''octo/cat'', repo_html_url = ''https://github.com/octo/cat'',
       repo_description = None\<rparr>,
      \<lparr>repo_id = None, repo_full_name = [], repo_html_url = [], repo_description = None\<rparr>,
      \<lparr>repo_id = Some 42, repo_full_name = ''octo/cat'', repo_html_url = ''https://github.com/octo/cat'',
       repo_description = Some ''A cat''\<rparr>,
      \<lparr>repo_id = Some 7, repo_full_name = ''octo/dog'', repo_html_url = ''https://github.com/octo/dog'',
       repo_description = None\<rparr>]"

definition v0_urls :: "string list" where
  "v0_urls = [''https://v0.app/community/abc123'', ''https://v0.app/chat/xyz'',
              ''https://v0.app/community/abc123?ref=home'']"

definition two_app_db :: vibe_coded_apps_db where
  "two_app_db =
     \<lparr>platforms = [\<lparr>pf_id = 6, pf_name = ''github.com'', pf_url = ''https://github.com''\<rparr>,
                   \<lparr>pf_id = 12, pf_name = ''GitHub'', pf_url = ''https://github.com''\<rparr>],
      applications =
        [\<lparr>app_id = 1, app_platform_id = 6, app_external_id = ''42'', app_name = ''octo/cat'',
          app_url = ''https://github.com/octo/cat'', app_description = None,
          app_updated_at = ''t0''\<rparr>,
         \<lparr>app_id = 2, app_platform_id = 12, app_external_id = ''7'', app_name = ''octo/dog'',
          app_url = ''https://github.com/octo/dog'', app_description = None,
          app_updated_at = ''t0''\<rparr>],
      applications_seq = 2\<rparr>"

definition cat_renamed :: application_data where
  "cat_renamed =
     \<lparr>d_platform_id = 6, d_external_id = ''42'', d_name = ''octo/kitten'',
      d_url = ''https://github.com/octo/kitten'', d_description = Some ''A kitten''\<rparr>"

definition cat_again :: application_data where
  "cat_again =
     \<lparr>d_platform_id = 6, d_external_id = ''42'', d_name = ''octo/cat'',
      d_url = ''https://github.com/octo/cat'', d_description = None\<rparr>"

definition one_app_db :: vibe_apps_db where
  "one_app_db =
     fst (process_bolt_projects ''t0'' [bolt_project_a] (empty_vibe_apps_db, initial_stats))"

definition empty_url_db :: vibe_apps_db where
  "empty_url_db =
     fst (process_bolt_projects ''t0'' [bolt_project_b] (empty_vibe_apps_db, initial_stats))"

text \<open>Two failure oracles for the merge script, and a store with the six platforms it names.\<close>

definition no_faults :: "stmt \<Rightarrow> bool" where
  "no_faults s = False"

definition fail_delete_3 :: "stmt \<Rightarrow> bool" where
  "fail_delete_3 s = (s = DeletePlatform 3)"

definition fail_commit :: "stmt \<Rightarrow> bool" where
  "fail_commit s = (s = Commit)"

definition fail_move_bolt :: "stmt \<Rightarrow> bool" where
  "fail_move_bolt s = (s = MoveApps 16 3)"

definition fail_stats :: "stmt \<Rightarrow> bool" where
  "fail_stats s = (s = PlatformStats)"

definition merge_db :: vibe_coded_apps_db where
  "merge_db =
     \<lparr>platforms =
        [\<lparr>pf_id = 2, pf_name = ''lovable.dev'', pf_url = ''https://lovable.dev''\<rparr>,
         \<lparr>pf_id = 3, pf_name = ''bolt.new'', pf_url = ''https://bolt.new''\<rparr>,
         \<lparr>pf_id = 6, pf_name = ''github.com'', pf_url = ''https://github.com''\<rparr>,
         \<lparr>pf_id = 12, pf_name = ''GitHub'', pf_url = ''https://github.com''\<rparr>,
         \<lparr>pf_id = 15, pf_name = ''Lovable'', pf_url = ''https://lovable.dev''\<rparr>,
         \<lparr>pf_id = 16, pf_name = ''Bolt'', pf_url = ''https://bolt.new''\<rparr>],
      applications =
        [\<lparr>app_id = 1, app_platform_id = 6, app_external_id = ''42'', app_name = ''octo/cat'',
          app_url = ''https://github.com/octo/cat'', app_description = None,
          app_updated_at = ''t0''\<rparr>,
         \<lparr>app_id = 2, app_platform_id = 12, app_external_id = ''7'', app_name = ''octo/dog'',
          app_url = ''https://github.com/octo/dog'', app_description = None,
          app_updated_at = ''t0''\<rparr>,
         \<lparr>app_id = 3, app_platform_id = 3, app_external_id = ''b1'', app_name = ''Todo'',
          app_url = ''https://bolt.new/a'', app_description = None,
          app_updated_at = ''t0''\<rparr>],
      applications_seq = 3\<rparr>"

definition github_pair :: duplicate where
  "github_pair = \<lparr>keep_id = 12, keep_name = ''GitHub'', merge_id = 6, merge_name = ''github.com''\<rparr>"

definition bolt_pair :: duplicate where
  "bolt_pair = \<lparr>keep_id = 16, keep_name = ''Bolt'', merge_id = 3, merge_name = ''bolt.new''\<rparr>"

definition lovable_pair :: duplicate where
  "lovable_pair = \<lparr>keep_id = 15, keep_name = ''Lovable'', merge_id = 2, merge_name = ''lovable.dev''\<rparr>"

text \<open>
  The status code of a response, the batch the Bolt scraper gets from its \<open>k\<close>-th request,
  and the trace of \<open>n\<close> rate-limited attempts at one page.
\<close>

fun status_of :: "'a response \<Rightarrow> nat option" where
  "status_of RequestFailed = None"
| "status_of (Response status items) = Some status"

definition bolt_batch :: "'a source \<Rightarrow> nat \<Rightarrow> 'a list" where
  "bolt_batch source k = fetch_gallery_projects (source k (1000 * k))"

fun bolt_trace :: "nat \<Rightarrow> nat \<Rightarrow> event list" where
  "bolt_trace t 0 = [Get (1000 * t)]"
| "bolt_trace t (Suc k) = [Get (1000 * t), Sleep 1] @ bolt_trace (Suc t) k"

fun bolt_batches :: "'a source \<Rightarrow> nat \<Rightarrow> nat \<Rightarrow> 'a list" where
  "bolt_batches source t 0 = bolt_batch source t"
| "bolt_batches source t (Suc k) = bolt_batch source t @ bolt_batches source (Suc t) k"

fun retries :: "nat \<Rightarrow> nat \<Rightarrow> event list" where
  "retries page 0 = []"
| "retries page (Suc n) = [Get page, Sleep 60] @ retries page n"

text \<open>
  What the Jules scraper gets from its \<open>k\<close>-th request (which asks for page \<open>k + 1\<close>), the
  items of \<open>k + 1\<close> requests in a row, and their trace.
\<close>

definition jules_page :: "'a source \<Rightarrow> nat \<Rightarrow> 'a list \<times> bool" where
  "jules_page source k = fetch_jules_prs_api 100 (source k (Suc k))"

fun jules_items :: "'a source \<Rightarrow> nat \<Rightarrow> nat \<Rightarrow> 'a list" where
  "jules_items source t 0 = fst (jules_page source t)"
| "jules_items source t (Suc k) = fst (jules_page source t) @ jules_items source (Suc t) k"

fun jules_trace :: "nat \<Rightarrow> nat \<Rightarrow> event list" where
  "jules_trace t 0 = [Get (Suc t)]"
| "jules_trace t (Suc k) = [Get (Suc t), Sleep 1] @ jules_trace (Suc t) k"

text \<open>
  For the code search: a page after which the loop goes on (status 200, not empty, not
  shorter than \<open>per_page\<close>), the items a response adds to the result, the items of \<open>n\<close>
  requests in a row, and the trace of \<open>k + 1\<close> requests.
\<close>

fun full_page :: "nat \<Rightarrow> 'a response \<Rightarrow> bool" where
  "full_page per_page RequestFailed = False"
| "full_page per_page (Response status items) =
     (status = 200 \<and> items \<noteq> [] \<and> per_page \<le> length items)"

fun kept_items :: "'a response \<Rightarrow> 'a list" where
  "kept_items RequestFailed = []"
| "kept_items (Response status items) = (if status = 200 then items else [])"

fun search_items :: "'a source \<Rightarrow> nat \<Rightarrow> nat \<Rightarrow> nat \<Rightarrow> 'a list" where
  "search_items source t page 0 = []"
| "search_items source t page (Suc n) =
     kept_items (source t page) @ search_items source (Suc t) (Suc page) n"

fun search_trace :: "nat \<Rightarrow> nat \<Rightarrow> event list" where
  "search_trace page 0 = [Get page]"
| "search_trace page (Suc k) = [Get page, Sleep 2] @ search_trace (Suc page) k"

text \<open>Sample sources.\<close>

definition always_full :: "nat source" where
  "always_full t offset = Response 200 (replicate 1000 0)"

definition always_403 :: "nat source" where
  "always_403 t page = Response 403 []"

definition always_429 :: "nat source" where
  "always_429 t page = Response 429 []"

definition twice_403 :: "nat source" where
  "twice_403 t page = (if t < 2 then Response 403 [] else Response 200 [7])"

definition ten_full_pages :: "nat source" where
  "ten_full_pages t page = Response 200 (replicate 100 page)"

definition hundred_then_three :: "nat source" where
  "hundred_then_three t page =
     (if t = 0 then Response 200 (replicate 100 0) else Response 200 [1, 2, 3])"

definition pages_of_250 :: "nat source" where
  "pages_of_250 t page = Response 200 (replicate 250 page)"

definition two_pages :: "nat source" where
  "two_pages t page = (if t = 0 then Response 200 (replicate 1000 0) else Response 200 [1, 2, 3])"

text \<open>
  The fields of a normalised record in order, and for every field that is read from the
  raw record with one \<open>project.get(key, default)\<close>: the field, the key and the default.
  The Lovable \<open>title\<close> is read from \<open>name\<close> and, failing that, from \<open>title\<close>; it is not in
  the table. The last three fields of either record are constants.
\<close>

definition lovable_fields :: "string list" where
  "lovable_fields =
     [''id'', ''workspace_id'', ''title'', ''description'', ''created_at'', ''updated_at'',
      ''created_by'', ''user_id'', ''user_display_name'', ''user_photo_url'', ''url'',
      ''latest_screenshot_url'', ''status'', ''is_published'', ''visibility'', ''featured'',
      ''featured_at'', ''feature_source'', ''feature_rank'', ''edit_count'',
      ''user_message_count'', ''remix_count'', ''source'', ''platform'', ''ai_tool'']"

definition bolt_fields :: "string list" where
  "bolt_fields =
     [''id'', ''title'', ''description'', ''start_date'', ''author'', ''author_email'',
      ''author_social'', ''slug'', ''published'', ''status'', ''project_url'',
      ''project_preview'', ''thumbnail_image'', ''category_slugs'', ''categories'', ''source'',
      ''platform'', ''ai_tool'']"

definition lovable_reads :: "(string \<times> string \<times> json) list" where
  "lovable_reads =
     [(''id'', ''id'', JNull), (''workspace_id'', ''workspace_id'', JNull),
      (''description'', ''description'', JStr []), (''created_at'', ''created_at'', JNull),
      (''updated_at'', ''updated_at'', JNull), (''created_by'', ''created_by'', JStr []),
      (''user_id'', ''user_id'', JNull), (''user_display_name'', ''user_display_name'', JStr []),
      (''user_photo_url'', ''user_photo_url'', JStr []), (''url'', ''url'', JStr []),
      (''latest_screenshot_url'', ''latest_screenshot_url'', JStr []),
      (''status'', ''status'', JStr []), (''is_published'', ''is_published'', JBool False),
      (''visibility'', ''visibility'', JStr []), (''featured'', ''featured'', JBool False),
      (''featured_at'', ''featured_at'', JNull), (''feature_source'', ''feature_source'', JStr []),
      (''feature_rank'', ''feature_rank'', JNull), (''edit_count'', ''edit_count'', JInt 0),
      (''user_message_count'', ''user_message_count'', JInt 0),
      (''remix_count'', ''remix_count'', JInt 0)]"

definition bolt_reads :: "(string \<times> string \<times> json) list" where
  "bolt_reads =
     [(''id'', ''id'', JNull), (''title'', ''title'', JStr []),
      (''description'', ''description'', JStr []), (''start_date'', ''start_date'', JNull),
      (''author'', ''author'', JStr []), (''author_email'', ''author_email'', JStr []),
      (''author_social'', ''author_social'', JStr []), (''slug'', ''slug'', JStr []),
      (''published'', ''published'', JBool False), (''status'', ''status'', JStr []),
      (''project_url'', ''project_url'', JStr []),
      (''project_preview'', ''project_preview'', JStr []),
      (''thumbnail_image'', ''thumbnail_image'', JStr []),
      (''category_slugs'', ''category_slugs'', JList []), (''categories'', ''categories'', JList [])]"

text \<open>The values a missing field degrades to.\<close>

definition degraded :: "json list" where
  "degraded = [JStr [], JInt 0, JBool False, JList [], JNull]"

text \<open>A raw record with a description and an edit count and nothing else.\<close>

definition description_only :: py_dict where
  "description_only = [(''description'', JStr ''no title, no name, no url, no link''),
                       (''edit_count'', JInt 4)]"

section \<open>Properties\<close>

subsection \<open>Platform upsert\<close>







subsection \<open>Application upsert: keys\<close>

lemma matches_key: "matches d r = (app_key r = data_key d)"
  by (auto simp: matches_def app_key_def data_key_def)

lemma app_key_update [simp]: "app_key (update_application now d r) = app_key r"
  by (simp add: app_key_def update_application_def)

lemma find_matches_None: "(find (matches d) rows = None) = (data_key d \<notin> set (map app_key rows))"
  by (force simp: find_None_iff matches_key image_iff)

lemma upsert_keys:
  "map app_key (applications (snd (insert_or_update_application now d db))) =
     (if data_key d \<in> set (map app_key (applications db)) then map app_key (applications db)
      else map app_key (applications db) @ [data_key d])"
proof (cases "find (matches d) (applications db)")
  case None
  then have "data_key d \<notin> set (map app_key (applications db))"
    by (simp add: find_matches_None)
  with None show ?thesis
    by (simp add: insert_or_update_application_def Let_def app_key_def data_key_def)
next
  case (Some r)
  then have "data_key d \<in> set (map app_key (applications db))"
    using find_matches_None [of d "applications db"] by auto
  moreover have "map app_key (map (\<lambda>x. if app_id x = app_id r then update_application now d x else x)
      (applications db)) = map app_key (applications db)"
    by (induction "applications db") (auto simp: o_def)
  ultimately show ?thesis using Some
    by (simp add: insert_or_update_application_def)
qed

lemma upsert_length:
  "length (applications (snd (insert_or_update_application now d db))) =
     (if data_key d \<in> set (map app_key (applications db)) then length (applications db)
      else Suc (length (applications db)))"
  using arg_cong [OF upsert_keys [of now d db], of length] by (simp split: if_splits)

lemma upsert_key_present:
  "data_key d \<in> set (map app_key (applications (snd (insert_or_update_application now d db))))"
  by (simp add: upsert_keys)

lemma upsert_keys_mono:
  "k \<in> set (map app_key (applications db)) \<Longrightarrow>
   k \<in> set (map app_key (applications (snd (insert_or_update_application now d db))))"
  by (simp add: upsert_keys)

lemma distinct_filter_one: "distinct xs \<Longrightarrow> x \<in> set xs \<Longrightarrow> length (filter (\<lambda>y. y = x) xs) = 1"
  by (induction xs) (auto simp: filter_empty_conv)

lemma rows_with_key_length:
  "length (rows_with_key k db) = length (filter (\<lambda>y. y = k) (map app_key (applications db)))"
  by (simp add: rows_with_key_def filter_map o_def)

subsection \<open>Re-running an ingestion\<close>

lemma process_github_items_upsert_all:
  "process_github_items now pid items db = upsert_all now (github_data_list pid items) db"
  by (induction items arbitrary: db) (auto simp: upsert_all_def split: option.splits)

lemma process_v0_url_list_upsert_all:
  "process_v0_url_list now pid urls db = upsert_all now (v0_data_list pid urls) db"
  by (induction urls arbitrary: db) (auto simp: upsert_all_def split: option.splits)

lemma upsert_platforms [simp]:
  "platforms (snd (insert_or_update_application now d db)) = platforms db"
  by (simp add: insert_or_update_application_def Let_def split: option.splits)

lemma upsert_all_platforms [simp]: "platforms (upsert_all now ds db) = platforms db"
  unfolding upsert_all_def by (induction ds arbitrary: db) auto

lemma upsert_all_keys_mono:
  "k \<in> set (map app_key (applications db)) \<Longrightarrow>
   k \<in> set (map app_key (applications (upsert_all now ds db)))"
  unfolding upsert_all_def
  by (induction ds arbitrary: db) (auto dest: upsert_keys_mono simp del: set_map)

lemma upsert_all_keys_present:
  "d \<in> set ds \<Longrightarrow> data_key d \<in> set (map app_key (applications (upsert_all now ds db)))"
proof (induction ds arbitrary: db)
  case Nil
  then show ?case by simp
next
  case (Cons a ds)
  show ?case
  proof (cases "d = a")
    case True
    have "data_key a \<in> set (map app_key (applications (snd (insert_or_update_application now a db))))"
      by (rule upsert_key_present)
    then show ?thesis
      using True upsert_all_keys_mono [of "data_key a" _ now ds]
      by (simp add: upsert_all_def del: set_map)
  next
    case False
    with Cons.prems have "d \<in> set ds" by simp
    then show ?thesis
      using Cons.IH [of "snd (insert_or_update_application now a db)"]
      by (simp add: upsert_all_def)
  qed
qed

lemma upsert_all_same_keys:
  "(\<And>d. d \<in> set ds \<Longrightarrow> data_key d \<in> set (map app_key (applications db))) \<Longrightarrow>
   map app_key (applications (upsert_all now ds db)) = map app_key (applications db)"
proof (induction ds arbitrary: db)
  case Nil
  then show ?case by (simp add: upsert_all_def)
next
  case (Cons a ds)
  let ?db1 = "snd (insert_or_update_application now a db)"
  have a: "data_key a \<in> set (map app_key (applications db))" using Cons.prems by simp
  then have k1: "map app_key (applications ?db1) = map app_key (applications db)"
    by (simp add: upsert_keys)
  have "map app_key (applications (upsert_all now ds ?db1)) = map app_key (applications ?db1)"
    using Cons.prems by (intro Cons.IH) (simp add: k1)
  then show ?case by (simp add: upsert_all_def k1)
qed

lemma upsert_all_twice_length:
  "length (applications (upsert_all now2 ds (upsert_all now1 ds db))) =
   length (applications (upsert_all now1 ds db))"
proof -
  have "map app_key (applications (upsert_all now2 ds (upsert_all now1 ds db))) =
        map app_key (applications (upsert_all now1 ds db))"
    by (rule upsert_all_same_keys) (rule upsert_all_keys_present)
  then show ?thesis using map_eq_imp_length_eq by blast
qed

lemma process_github_twice:
  "length (applications (process_github_search_results now2 items pn
             (process_github_search_results now1 items pn db))) =
   length (applications (process_github_search_results now1 items pn db))"
  by (simp add: process_github_search_results_def get_platform_id_def
        process_github_items_upsert_all upsert_all_twice_length split: option.splits)

lemma process_v0_twice:
  "length (applications (process_v0_urls now2 urls pn (process_v0_urls now1 urls pn db))) =
   length (applications (process_v0_urls now1 urls pn db))"
  by (simp add: process_v0_urls_def get_platform_id_def
        process_v0_url_list_upsert_all upsert_all_twice_length split: option.splits)

lemma duplicate_url_stored: "duplicate_url u db \<Longrightarrow> u \<in> stored_urls db"
proof (cases u)
  case None
  assume "duplicate_url u db"
  with None show ?thesis by simp
next
  case (Some v)
  assume "duplicate_url u db"
  with Some obtain r where "find (\<lambda>r. row_url r = Some v) (apps db) = Some r"
    by (auto simp: select_app_by_url_def)
  then have "r \<in> set (apps db)" "row_url r = Some v"
    by (auto simp: find_Some_iff)
  with Some show ?thesis by (force simp: stored_urls_def)
qed

lemma stored_url_duplicate:
  assumes "u \<noteq> []" and "Some u \<in> stored_urls db"
  shows "duplicate_url (Some u) db"
proof -
  from assms(2) obtain r where "r \<in> set (apps db)" "row_url r = Some u"
    by (auto simp: stored_urls_def)
  then have "find (\<lambda>r. row_url r = Some u) (apps db) \<noteq> None"
    by (auto simp: find_None_iff)
  with assms(1) show ?thesis by (simp add: select_app_by_url_def)
qed

lemma insert_or_ignore_conflict:
  "url_conflict (ad_url ad) db \<Longrightarrow> apps (insert_or_ignore_app now ad db) = apps db"
  by (simp add: insert_or_ignore_app_def Let_def)

lemma insert_app_stored_unchanged:
  assumes "ad_url ad \<noteq> None" and "ad_url ad \<in> stored_urls db"
  shows "apps (fst (snd (insert_app now ad (db, st)))) = apps db"
proof -
  have "url_conflict (ad_url ad) db" using assms by (simp add: url_conflict_def stored_urls_def)
  then show ?thesis
    by (simp add: insert_app_def Let_def insert_or_ignore_conflict)
qed

lemma insert_app_overflow_unchanged:
  "stars_overflow (ad_stars ad) \<Longrightarrow> apps (fst (snd (insert_app now ad (db, st)))) = apps db"
  by (simp add: insert_app_def Let_def)

lemma insert_app_url_present:
  assumes "\<not> stars_overflow (ad_stars ad)"
  shows "ad_url ad \<in> stored_urls (fst (snd (insert_app now ad (db, st))))"
proof (cases "duplicate_url (ad_url ad) db")
  case True
  then show ?thesis using duplicate_url_stored [OF True] by (simp add: insert_app_def Let_def)
next
  case False
  have "ad_url ad \<in> stored_urls (insert_or_ignore_app now ad db)"
    by (auto simp: insert_or_ignore_app_def Let_def url_conflict_def stored_urls_def)
  with False assms show ?thesis by (simp add: insert_app_def Let_def)
qed

lemma insert_app_urls_mono:
  "u \<in> stored_urls db \<Longrightarrow> u \<in> stored_urls (fst (snd (insert_app now ad (db, st))))"
  by (auto simp: insert_app_def Let_def insert_or_ignore_app_def stored_urls_def)

lemma insert_apps_urls_mono:
  "u \<in> stored_urls (fst s) \<Longrightarrow> u \<in> stored_urls (fst (insert_apps now ads s))"
proof (induction ads arbitrary: s)
  case Nil
  then show ?case by simp
next
  case (Cons ad ads)
  obtain db st where s: "s = (db, st)" by (cases s)
  obtain res db' st' where r: "insert_app now ad (db, st) = (res, db', st')"
    by (cases "insert_app now ad (db, st)")
  have "u \<in> stored_urls db'"
    using insert_app_urls_mono [of u db now ad st] Cons.prems by (simp add: s r)
  then show ?case
    using Cons.IH by (cases res) (simp_all add: s r)
qed

lemma insert_apps_urls_present:
  "ad \<in> set ads \<Longrightarrow> \<not> stars_overflow (ad_stars ad) \<Longrightarrow>
   ad_url ad \<in> stored_urls (fst (insert_apps now ads s))"
proof (induction ads arbitrary: s)
  case Nil
  then show ?case by simp
next
  case (Cons a ads)
  obtain db st where s: "s = (db, st)" by (cases s)
  obtain res db' st' where r: "insert_app now a (db, st) = (res, db', st')"
    by (cases "insert_app now a (db, st)")
  show ?case
  proof (cases "ad = a")
    case True
    have "ad_url a \<in> stored_urls db'"
      using insert_app_url_present [of a now db st] Cons.prems(2) True by (simp add: r)
    then show ?thesis
      using True insert_apps_urls_mono [of "ad_url a" _ now ads]
      by (cases res) (simp_all add: s r)
  next
    case False
    with Cons.prems have "ad \<in> set ads" by simp
    then show ?thesis using Cons.IH Cons.prems(2) by (cases res) (simp_all add: s r)
  qed
qed

lemma insert_apps_stored_unchanged:
  "(\<And>ad. ad \<in> set ads \<Longrightarrow>
      stars_overflow (ad_stars ad) \<or> (ad_url ad \<noteq> None \<and> ad_url ad \<in> stored_urls (fst s))) \<Longrightarrow>
   apps (fst (insert_apps now ads s)) = apps (fst s)"
proof (induction ads arbitrary: s)
  case Nil
  then show ?case by simp
next
  case (Cons a ads)
  obtain db st where s: "s = (db, st)" by (cases s)
  obtain res db' st' where r: "insert_app now a (db, st) = (res, db', st')"
    by (cases "insert_app now a (db, st)")
  have a: "stars_overflow (ad_stars a) \<or> (ad_url a \<noteq> None \<and> ad_url a \<in> stored_urls db)"
    using Cons.prems [of a] by (simp add: s)
  have same: "apps db' = apps db"
    using a insert_app_stored_unchanged [of a db now st]
      insert_app_overflow_unchanged [of a now db st]
    by (auto simp: r)
  then have urls: "stored_urls db' = stored_urls db" by (simp add: stored_urls_def)
  have "apps (fst (insert_apps now ads (db', x))) = apps (fst (db', x))" for x
    using Cons.prems by (intro Cons.IH) (simp add: s urls)
  then show ?case using same by (cases res) (simp_all add: s r)
qed

lemma insert_platform_apps [simp]: "apps (snd (insert_platform now n d b m db)) = apps db"
  by (simp add: insert_platform_def Let_def)

lemma process_bolt_twice:
  assumes "\<forall>ad \<in> set ads. ad_url ad \<noteq> None"
  shows "apps (fst (process_bolt_projects now2 ads (process_bolt_projects now1 ads s))) =
         apps (fst (process_bolt_projects now1 ads s))"
proof -
  let ?s1 = "process_bolt_projects now1 ads s"
  let ?p = "(snd (insert_platform now2 ''Bolt'' ''Bolt.new Supabase gallery projects''
               ''https://bolt.new'' ''supabase_api'' (fst ?s1)), snd ?s1)"
  have present: "ad \<in> set ads \<Longrightarrow> \<not> stars_overflow (ad_stars ad) \<Longrightarrow>
      ad_url ad \<in> stored_urls (fst ?s1)" for ad
    unfolding process_bolt_projects_def by (rule insert_apps_urls_present)
  have "stored_urls (fst ?p) = stored_urls (fst ?s1)" by (simp add: stored_urls_def)
  then have "apps (fst (insert_apps now2 ads ?p)) = apps (fst ?p)"
    using assms present by (intro insert_apps_stored_unchanged) auto
  then show ?thesis by (simp add: process_bolt_projects_def)
qed

text \<open>
  C1 (as the code has it). Running the GitHub search ingestion or the v0 ingestion of
  \<open>process_data.py\<close> a second time on the same dataset leaves the number of application
  rows where the first run put it, whatever store the first run started from. The same
  holds for the Bolt ingestion of \<open>data_integration.py\<close> when no record of the dataset has
  a null \<open>url\<close>.
\<close>

theorem reingestion_idempotent:
  "length (applications (process_github_search_results now2 items pn
             (process_github_search_results now1 items pn db))) =
   length (applications (process_github_search_results now1 items pn db))
   \<and> length (applications (process_v0_urls now2 urls pn' (process_v0_urls now1 urls pn' db'))) =
     length (applications (process_v0_urls now1 urls pn' db'))
   \<and> ((\<forall>ad \<in> set ads. ad_url ad \<noteq> None) \<longrightarrow>
        length (apps (fst (process_bolt_projects now2 ads (process_bolt_projects now1 ads s)))) =
        length (apps (fst (process_bolt_projects now1 ads s))))"
  by (simp add: process_github_twice process_v0_twice process_bolt_twice)

text \<open>
  Three datasets with repeated and skipped records: the second run changes no count.
\<close>

theorem reingestion_idempotent_witness:
  "ad_url bolt_project_a \<noteq> None \<and> ad_url bolt_project_b \<noteq> None
   \<and> length (applications (process_github_search_results ''t1'' github_items ''github.com'' github_db)) = 2
   \<and> length (applications (process_github_search_results ''t2'' github_items ''github.com''
        (process_github_search_results ''t1'' github_items ''github.com'' github_db))) = 2
   \<and> length (applications (process_v0_urls ''t1'' v0_urls ''v0.dev'' github_db)) = 1
   \<and> length (applications (process_v0_urls ''t2'' v0_urls ''v0.dev''
        (process_v0_urls ''t1'' v0_urls ''v0.dev'' github_db))) = 1
   \<and> length (apps (fst (process_bolt_projects ''t1'' [bolt_project_a, bolt_project_b, bolt_project_a]
        (empty_vibe_apps_db, initial_stats)))) = 2
   \<and> length (apps (fst (process_bolt_projects ''t2'' [bolt_project_a, bolt_project_b, bolt_project_a]
        (process_bolt_projects ''t1'' [bolt_project_a, bolt_project_b, bolt_project_a]
           (empty_vibe_apps_db, initial_stats))))) = 2"
proof -
  have gh: "length (applications (process_github_search_results ''t1'' github_items ''github.com'' github_db)) = 2"
    by (simp add: process_github_search_results_def get_platform_id_def github_db_def github_items_def
      insert_or_update_application_def matches_def github_app_data_def str_int_def str_nat.simps
      digit_char_def next_rowid_def max_rowid_def update_application_def)
  have v0: "length (applications (process_v0_urls ''t1'' v0_urls ''v0.dev'' github_db)) = 1"
    by (simp add: process_v0_urls_def get_platform_id_def github_db_def v0_urls_def
      insert_or_update_application_def matches_def v0_app_data_def id_char_def
      next_rowid_def max_rowid_def update_application_def)
  have bolt: "length (apps (fst (process_bolt_projects ''t1'' [bolt_project_a, bolt_project_b, bolt_project_a]
     (empty_vibe_apps_db, initial_stats)))) = 2"
    by (simp add: process_bolt_projects_def insert_platform_def empty_vibe_apps_db_def initial_stats_def
      bolt_project_a_def bolt_project_b_def insert_app_def insert_or_ignore_app_def url_conflict_def
      select_app_by_url_def next_rowid_def max_rowid_def sqlite_integer_def)
  have urls: "\<forall>ad \<in> set [bolt_project_a, bolt_project_b, bolt_project_a]. ad_url ad \<noteq> None"
    by (simp add: bolt_project_a_def bolt_project_b_def)
  show ?thesis
    using reingestion_idempotent [where ?now1.0 = "''t1''" and ?now2.0 = "''t2''"
        and items = github_items and pn = "''github.com''" and db = github_db
        and urls = v0_urls and pn' = "''v0.dev''" and db' = github_db
        and ads = "[bolt_project_a, bolt_project_b, bolt_project_a]"
        and s = "(empty_vibe_apps_db, initial_stats)"] urls gh v0 bolt
    by (simp add: bolt_project_a_def bolt_project_b_def)
qed

text \<open>
  C1 (as the specification words it) fails for a Bolt dataset holding one project whose
  \<open>url\<close> is JSON null: the duplicate check is skipped for a false \<open>url\<close>, and a NULL never
  conflicts under the UNIQUE constraints, so the first run on the empty store stores one
  row and the second run stores a second one.
\<close>

theorem null_url_counterexample:
  "length (apps (fst (process_bolt_projects ''t1'' [null_url_project]
      (empty_vibe_apps_db, initial_stats)))) = 1
   \<and> length (apps (fst (process_bolt_projects ''t2'' [null_url_project]
      (process_bolt_projects ''t1'' [null_url_project] (empty_vibe_apps_db, initial_stats))))) = 2"
  by (simp add: process_bolt_projects_def insert_platform_def empty_vibe_apps_db_def initial_stats_def
      null_url_project_def insert_app_def insert_or_ignore_app_def url_conflict_def
      select_app_by_url_def next_rowid_def max_rowid_def sqlite_integer_def)

text \<open>
  C2. Identity-key uniqueness. In a store whose application rows have pairwise different
  (platform, external identifier) pairs, every upsert keeps them pairwise different; and
  after upserting two records that agree on platform and external identifier, exactly one
  application row carries that pair.
\<close>

theorem upsert_identity_key:
  assumes "unique_keys db"
  shows "unique_keys (snd (insert_or_update_application now d db))
     \<and> (data_key d1 = data_key d2 \<longrightarrow>
         length (rows_with_key (data_key d1)
           (snd (insert_or_update_application now2 d2
              (snd (insert_or_update_application now1 d1 db))))) = 1)"
proof (intro conjI impI)
  show u: "unique_keys (snd (insert_or_update_application now d db))" for now d
    using assms by (simp add: unique_keys_def upsert_keys)
  assume eq: "data_key d1 = data_key d2"
  let ?db1 = "snd (insert_or_update_application now1 d1 db)"
  let ?db2 = "snd (insert_or_update_application now2 d2 ?db1)"
  have "data_key d1 \<in> set (map app_key (applications ?db1))" by (rule upsert_key_present)
  then have k: "map app_key (applications ?db2) = map app_key (applications ?db1)"
    using eq by (simp add: upsert_keys)
  have "distinct (map app_key (applications ?db1))" using u by (simp add: unique_keys_def)
  then show "length (rows_with_key (data_key d1) ?db2) = 1"
    unfolding rows_with_key_length k
    using upsert_key_present [of d1 now1 db] by (intro distinct_filter_one)
qed

text \<open>
  The store \<open>github_db\<close> has no application yet; \<open>cat_again\<close> and \<open>cat_renamed\<close> are two
  records of platform 6 with external identifier 42.
\<close>

theorem upsert_identity_key_witness:
  "unique_keys github_db \<and> data_key cat_renamed = data_key cat_again
   \<and> unique_keys (snd (insert_or_update_application ''t1'' cat_again github_db))
   \<and> length (rows_with_key (6, ''42'')
        (snd (insert_or_update_application ''t2'' cat_renamed
           (snd (insert_or_update_application ''t1'' cat_again github_db))))) = 1"
proof -
  have u: "unique_keys github_db" by (simp add: unique_keys_def github_db_def)
  have k: "data_key cat_renamed = data_key cat_again" "data_key cat_again = (6, ''42'')"
    by (simp_all add: data_key_def cat_renamed_def cat_again_def)
  show ?thesis
    using upsert_identity_key [OF u, of "''t1''" cat_again cat_again cat_renamed "''t2''" "''t1''"] u k
    by simp
qed

subsection \<open>Application upsert: the matching row\<close>

lemma distinct_id_eq:
  "distinct (map app_id rows) \<Longrightarrow> r \<in> set rows \<Longrightarrow> x \<in> set rows \<Longrightarrow>
   (app_id x = app_id r) = (x = r)"
  by (auto simp: distinct_map inj_on_def)

lemma upsert_existing_rows:
  assumes "distinct (map app_id (applications db))"
    and "find (matches d) (applications db) = Some r"
  shows "applications (snd (insert_or_update_application now d db)) =
         map (\<lambda>x. if x = r then update_application now d r else x) (applications db)"
proof -
  have r: "r \<in> set (applications db)" using assms(2) by (auto simp: find_Some_iff)
  have "map (\<lambda>x. if app_id x = app_id r then update_application now d x else x) (applications db) =
        map (\<lambda>x. if x = r then update_application now d r else x) (applications db)"
    by (rule map_cong) (auto simp: distinct_id_eq [OF assms(1) r])
  then show ?thesis using assms(2) by (simp add: insert_or_update_application_def)
qed

text \<open>
  C10. Frame of a re-upsert. When the ids of the application rows are pairwise different
  (\<open>id\<close> is the primary key) and \<open>r\<close> is the row the SELECT finds for the record's platform
  and external identifier, the upsert returns the id of \<open>r\<close>, replaces \<open>r\<close> by \<open>r\<close> with
  new \<open>name\<close>, \<open>url\<close>, \<open>description\<close> and \<open>updated_at\<close> (so \<open>id\<close>, \<open>platform_id\<close> and
  \<open>external_id\<close> of the row stay), leaves every other row as it was, keeps the number of
  rows, and does not touch the platforms table.
\<close>

theorem upsert_existing_frame:
  assumes "distinct (map app_id (applications db))"
    and "find (matches d) (applications db) = Some r"
  shows "fst (insert_or_update_application now d db) = app_id r
     \<and> applications (snd (insert_or_update_application now d db)) =
         map (\<lambda>x. if x = r
                   then r\<lparr>app_name := d_name d, app_url := d_url d,
                          app_description := d_description d, app_updated_at := now\<rparr>
                   else x) (applications db)
     \<and> length (applications (snd (insert_or_update_application now d db))) =
         length (applications db)
     \<and> platforms (snd (insert_or_update_application now d db)) = platforms db"
  using upsert_existing_rows [OF assms, of now] assms(2)
  by (simp add: update_application_def insert_or_update_application_def)

text \<open>
  In \<open>two_app_db\<close> the record \<open>cat_renamed\<close> matches the first of the two rows.
\<close>

theorem upsert_existing_frame_witness:
  "distinct (map app_id (applications two_app_db))
   \<and> find (matches cat_renamed) (applications two_app_db) = Some (hd (applications two_app_db))
   \<and> fst (insert_or_update_application ''t1'' cat_renamed two_app_db) = 1
   \<and> applications (snd (insert_or_update_application ''t1'' cat_renamed two_app_db)) =
        [\<lparr>app_id = 1, app_platform_id = 6, app_external_id = ''42'', app_name = ''octo/kitten'',
          app_url = ''https://github.com/octo/kitten'', app_description = Some ''A kitten'',
          app_updated_at = ''t1''\<rparr>,
         \<lparr>app_id = 2, app_platform_id = 12, app_external_id = ''7'', app_name = ''octo/dog'',
          app_url = ''https://github.com/octo/dog'', app_description = None,
          app_updated_at = ''t0''\<rparr>]"
proof -
  have d: "distinct (map app_id (applications two_app_db))" by (simp add: two_app_db_def)
  have f: "find (matches cat_renamed) (applications two_app_db) = Some (hd (applications two_app_db))"
    by (simp add: two_app_db_def matches_def cat_renamed_def)
  show ?thesis
    using upsert_existing_frame [OF d f, of "''t1''"] d f
    by (simp add: two_app_db_def cat_renamed_def)
qed

text \<open>
  C6 (as the code has it). A record whose key matches an existing row creates no new row
  on either path. \<open>_insert_or_update_application\<close> (key: platform and external
  identifier) does not skip: the matching row \<open>r\<close> is stored again with the record's
  \<open>name\<close>, \<open>url\<close> and \<open>description\<close> and a new \<open>updated_at\<close>. \<open>insert_app\<close> (key: the
  URL alone) skips: when the record's URL is a non-empty string that some row of \<open>apps\<close>
  carries, it returns \<open>None\<close>, counts one skipped duplicate and leaves the database as it
  was; when the record's URL is any non-NULL value that some row carries, the empty string
  included, the rows of \<open>apps\<close> are left as they were.
\<close>

theorem duplicate_gate:
  "(find (matches d) (applications db) = Some r \<longrightarrow>
      length (applications (snd (insert_or_update_application now d db))) = length (applications db)
      \<and> r\<lparr>app_name := d_name d, app_url := d_url d, app_description := d_description d,
           app_updated_at := now\<rparr> \<in> set (applications (snd (insert_or_update_application now d db))))
   \<and> (ad_url ad = Some u \<and> u \<noteq> [] \<and> Some u \<in> set (map row_url (apps idb)) \<longrightarrow>
      insert_app now ad (idb, st) =
        (None, idb, st\<lparr>duplicates_skipped := duplicates_skipped st + 1\<rparr>))
   \<and> (ad_url ad \<noteq> None \<and> ad_url ad \<in> set (map row_url (apps idb)) \<longrightarrow>
      apps (fst (snd (insert_app now ad (idb, st)))) = apps idb)"
proof (intro conjI impI)
  assume f: "find (matches d) (applications db) = Some r"
  then have r: "r \<in> set (applications db)" by (auto simp: find_Some_iff)
  from f show "length (applications (snd (insert_or_update_application now d db))) =
      length (applications db)"
    by (simp add: insert_or_update_application_def)
  have "update_application now d r \<in>
      (\<lambda>x. if app_id x = app_id r then update_application now d x else x) ` set (applications db)"
    using r by (intro image_eqI [where x = r]) simp_all
  with f show "r\<lparr>app_name := d_name d, app_url := d_url d, app_description := d_description d,
           app_updated_at := now\<rparr> \<in> set (applications (snd (insert_or_update_application now d db)))"
    by (simp add: insert_or_update_application_def update_application_def)
next
  assume a: "ad_url ad = Some u \<and> u \<noteq> [] \<and> Some u \<in> set (map row_url (apps idb))"
  then have "duplicate_url (ad_url ad) idb"
    using stored_url_duplicate [of u idb] by (simp add: stored_urls_def)
  then show "insert_app now ad (idb, st) =
        (None, idb, st\<lparr>duplicates_skipped := duplicates_skipped st + 1\<rparr>)"
    by (simp add: insert_app_def)
next
  assume "ad_url ad \<noteq> None \<and> ad_url ad \<in> set (map row_url (apps idb))"
  then show "apps (fst (snd (insert_app now ad (idb, st)))) = apps idb"
    using insert_app_stored_unchanged [of ad idb now st] by (simp add: stored_urls_def)
qed

text \<open>
  \<open>one_app_db\<close> is the integration store after one Bolt project has been ingested, and
  \<open>empty_url_db\<close> the store after a project with the empty string as URL.
\<close>

theorem duplicate_gate_witness:
  "find (matches cat_renamed) (applications two_app_db) = Some (hd (applications two_app_db))
   \<and> map row_url (apps one_app_db) = [Some ''https://bolt.new/a'']
   \<and> ad_url bolt_project_a = Some ''https://bolt.new/a''
   \<and> length (applications (snd (insert_or_update_application ''t1'' cat_renamed two_app_db))) = 2
   \<and> insert_app ''t1'' bolt_project_a (one_app_db, initial_stats) =
       (None, one_app_db, initial_stats\<lparr>duplicates_skipped := 1\<rparr>)
   \<and> map row_url (apps empty_url_db) = [Some []]
   \<and> ad_url bolt_project_b = Some []
   \<and> apps (fst (snd (insert_app ''t1'' bolt_project_b (empty_url_db, initial_stats)))) =
       apps empty_url_db
   \<and> apps_seq empty_url_db = 1
   \<and> apps_seq (fst (snd (insert_app ''t1'' bolt_project_b (empty_url_db, initial_stats)))) = 2"
proof -
  have f: "find (matches cat_renamed) (applications two_app_db) = Some (hd (applications two_app_db))"
    by (simp add: two_app_db_def matches_def cat_renamed_def)
  have a: "map row_url (apps one_app_db) = [Some ''https://bolt.new/a'']"
    by (simp add: one_app_db_def process_bolt_projects_def insert_platform_def empty_vibe_apps_db_def
        initial_stats_def bolt_project_a_def insert_app_def insert_or_ignore_app_def url_conflict_def
        select_app_by_url_def next_rowid_def max_rowid_def sqlite_integer_def)
  have e: "map row_url (apps empty_url_db) = [Some []]" "apps_seq empty_url_db = 1"
      "map row_id (apps empty_url_db) = [1]"
    by (simp_all add: empty_url_db_def process_bolt_projects_def insert_platform_def
        empty_vibe_apps_db_def initial_stats_def bolt_project_b_def insert_app_def
        insert_or_ignore_app_def url_conflict_def select_app_by_url_def next_rowid_def
        max_rowid_def)
  have u: "ad_url bolt_project_a = Some ''https://bolt.new/a''" "ad_url bolt_project_b = Some []"
    by (simp_all add: bolt_project_a_def bolt_project_b_def)
  have l: "length (applications two_app_db) = 2" by (simp add: two_app_db_def)
  have c: "url_conflict (ad_url bolt_project_b) empty_url_db"
    unfolding url_conflict_def u by (simp add: e del: set_map)
  have nd: "\<not> duplicate_url (ad_url bolt_project_b) empty_url_db" by (simp add: u)
  have so: "\<not> stars_overflow (ad_stars bolt_project_b)" by (simp add: bolt_project_b_def)
  have q: "apps_seq (fst (snd (insert_app ''t1'' bolt_project_b (empty_url_db, initial_stats)))) = 2"
    by (simp add: insert_app_def Let_def nd so c insert_or_ignore_app_def e next_rowid_def
        max_rowid_def)
  show ?thesis
    using duplicate_gate [where d = cat_renamed and db = two_app_db
        and r = "hd (applications two_app_db)" and now = "''t1''" and ad = bolt_project_a
        and u = "''https://bolt.new/a''" and idb = one_app_db and st = initial_stats]
      duplicate_gate [where d = cat_renamed and db = two_app_db
        and r = "hd (applications two_app_db)" and now = "''t1''" and ad = bolt_project_b
        and u = "[]" and idb = empty_url_db and st = initial_stats]
      f a e u l q
    by (simp add: initial_stats_def)
qed

text \<open>
  C6 (as the specification words it) fails on \<open>_insert_or_update_application\<close>: the record
  \<open>cat_renamed\<close> matches the first row of \<open>two_app_db\<close>, and the upsert changes that row's
  name from \<open>octo/cat\<close> to \<open>octo/kitten\<close>.
\<close>

theorem refresh_on_duplicate_counterexample:
  "find (matches cat_renamed) (applications two_app_db) = Some (hd (applications two_app_db))
   \<and> map app_name (applications two_app_db) = [''octo/cat'', ''octo/dog'']
   \<and> map app_name (applications (snd (insert_or_update_application ''t1'' cat_renamed two_app_db))) =
       [''octo/kitten'', ''octo/dog'']"
  by (simp add: two_app_db_def matches_def cat_renamed_def insert_or_update_application_def
      update_application_def)

subsection \<open>Merging platforms\<close>

lemma count_moved_rows:
  "keep \<noteq> merge \<Longrightarrow>
   length (filter (\<lambda>r. app_platform_id r = keep)
     (map (\<lambda>r. if app_platform_id r = merge
                then r\<lparr>app_platform_id := keep, app_updated_at := now\<rparr> else r) rows)) =
   length (filter (\<lambda>r. app_platform_id r = keep) rows) +
   length (filter (\<lambda>r. app_platform_id r = merge) rows)"
  by (induction rows) auto

lemma count_apps_move:
  "keep \<noteq> merge \<Longrightarrow>
   count_apps keep (move_apps now keep merge db) = count_apps keep db + count_apps merge db"
  using count_moved_rows [of keep merge now "applications db"]
  by (simp add: count_apps_def move_apps_def)

lemma count_apps_delete [simp]: "count_apps pid (delete_platform m db) = count_apps pid db"
  by (simp add: count_apps_def delete_platform_def)

lemma platform_ids_delete: "platform_ids (delete_platform m db) = platform_ids db - {m}"
  by (auto simp: platform_ids_def delete_platform_def)

lemma move_apps_none: "count_apps merge db = 0 \<Longrightarrow> move_apps now keep merge db = db"
proof -
  assume "count_apps merge db = 0"
  then have "\<forall>r \<in> set (applications db). app_platform_id r \<noteq> merge"
    by (auto simp: count_apps_def filter_empty_conv)
  then have "map (\<lambda>r. if app_platform_id r = merge
                    then r\<lparr>app_platform_id := keep, app_updated_at := now\<rparr> else r)
            (applications db) = applications db"
    by (simp add: map_idI)
  then show ?thesis by (simp add: move_apps_def)
qed

lemma merge_pair_references:
  assumes "keep_id dup \<noteq> merge_id dup" "keep_id dup \<in> platform_ids db" "references_ok db"
  shows "references_ok (merge_pair now dup db)"
  using assms
  by (auto simp: references_ok_def merge_pair_def platform_ids_def delete_platform_def move_apps_def)

lemma merge_pair_count:
  "keep_id dup \<noteq> merge_id dup \<Longrightarrow>
   count_apps (keep_id dup) (merge_pair now dup db) =
     count_apps (keep_id dup) db + count_apps (merge_id dup) db"
  by (simp add: merge_pair_def count_apps_move)

lemma merge_pair_deleted: "merge_id dup \<notin> platform_ids (merge_pair now dup db)"
  by (simp add: merge_pair_def platform_ids_delete)

lemma merge_loop_step_ok:
  assumes "\<not> fails (CountApps (merge_id dup))" "\<not> fails (DeletePlatform (merge_id dup))"
    and "0 < count_apps (merge_id dup) w \<longrightarrow> \<not> fails (MoveApps (keep_id dup) (merge_id dup))"
  shows "merge_loop fails now (dup # rest) w m =
         merge_loop fails now rest (merge_pair now dup w) (m + count_apps (merge_id dup) w)"
  using assms by (auto simp: Let_def merge_pair_def move_apps_none)

lemma merge_loop_step_fail:
  assumes "fails (CountApps (merge_id dup)) \<or> fails (DeletePlatform (merge_id dup))
           \<or> (0 < count_apps (merge_id dup) w \<and> fails (MoveApps (keep_id dup) (merge_id dup)))"
  shows "\<exists>e. merge_loop fails now (dup # rest) w m = Inl e"
  using assms by (auto simp: Let_def)

declare merge_loop.simps(2) [simp del]

lemma merge_loop_fail_executed:
  assumes "fails (CountApps (merge_id dup)) \<or> fails (DeletePlatform (merge_id dup))
      \<or> (fails (MoveApps (keep_id dup) (merge_id dup))
          \<and> 0 < count_apps (merge_id dup) (fold (merge_pair now) before w))"
  shows "\<exists>e. merge_loop fails now (before @ dup # rest) w m = Inl e"
  using assms
proof (induction before arbitrary: w m)
  case Nil
  then show ?case using merge_loop_step_fail [of fails dup w now rest m] by auto
next
  case (Cons a before)
  show ?case
  proof (cases "fails (CountApps (merge_id a)) \<or> fails (DeletePlatform (merge_id a))
           \<or> (0 < count_apps (merge_id a) w \<and> fails (MoveApps (keep_id a) (merge_id a)))")
    case True
    then show ?thesis
      using merge_loop_step_fail [of fails a w now "before @ dup # rest" m] by simp
  next
    case False
    then have "merge_loop fails now (a # before @ dup # rest) w m =
        merge_loop fails now (before @ dup # rest) (merge_pair now a w)
          (m + count_apps (merge_id a) w)"
      by (intro merge_loop_step_ok) auto
    moreover have "\<exists>e. merge_loop fails now (before @ dup # rest) (merge_pair now a w)
          (m + count_apps (merge_id a) w) = Inl e"
      using Cons.prems by (intro Cons.IH) simp
    ultimately show ?thesis by simp
  qed
qed

lemma merge_loop_none_executed_fails:
  assumes "\<forall>before p rest. dups = before @ p # rest \<longrightarrow>
      \<not> fails (CountApps (merge_id p)) \<and> \<not> fails (DeletePlatform (merge_id p))
      \<and> (0 < count_apps (merge_id p) (fold (merge_pair now) before w) \<longrightarrow>
           \<not> fails (MoveApps (keep_id p) (merge_id p)))"
  shows "\<exists>m'. merge_loop fails now dups w m = Inr (fold (merge_pair now) dups w, m')"
  using assms
proof (induction dups arbitrary: w m)
  case Nil
  show ?case by simp
next
  case (Cons a dups)
  have first: "\<not> fails (CountApps (merge_id a)) \<and> \<not> fails (DeletePlatform (merge_id a))
      \<and> (0 < count_apps (merge_id a) w \<longrightarrow> \<not> fails (MoveApps (keep_id a) (merge_id a)))"
    using Cons.prems [rule_format, of "[]" a dups] by simp
  then have step: "merge_loop fails now (a # dups) w m =
        merge_loop fails now dups (merge_pair now a w) (m + count_apps (merge_id a) w)"
    by (intro merge_loop_step_ok) auto
  have "\<forall>before p rest. dups = before @ p # rest \<longrightarrow>
      \<not> fails (CountApps (merge_id p)) \<and> \<not> fails (DeletePlatform (merge_id p))
      \<and> (0 < count_apps (merge_id p) (fold (merge_pair now) before (merge_pair now a w)) \<longrightarrow>
           \<not> fails (MoveApps (keep_id p) (merge_id p)))"
  proof (intro allI impI)
    fix before p rest
    assume "dups = before @ p # rest"
    then have "a # dups = (a # before) @ p # rest" by simp
    from Cons.prems [rule_format, OF this]
    show "\<not> fails (CountApps (merge_id p)) \<and> \<not> fails (DeletePlatform (merge_id p))
      \<and> (0 < count_apps (merge_id p) (fold (merge_pair now) before (merge_pair now a w)) \<longrightarrow>
           \<not> fails (MoveApps (keep_id p) (merge_id p)))"
      by simp
  qed
  from Cons.IH [OF this] show ?case by (simp add: step)
qed

text \<open>
  C3. Merging one pair. Let the kept and the merged platform id differ, let the kept
  platform exist, and let every application reference an existing platform. If none of
  the statements of the run up to COMMIT raises, then afterwards the kept platform owns
  the applications of both, the merged platform's row is gone, and every application still
  references an existing platform. If one of the statements that are executed up to COMMIT
  raises (the UPDATE is executed only when there is an application to move), the database
  is exactly what it was: neither the re-pointing nor the deletion has taken effect.
\<close>

theorem merge_platforms_atomic:
  assumes "keep_id dup \<noteq> merge_id dup" and "keep_id dup \<in> platform_ids db"
    and "references_ok db"
  shows "(\<not> fails Begin \<and> \<not> fails (CountApps (merge_id dup))
          \<and> \<not> fails (MoveApps (keep_id dup) (merge_id dup))
          \<and> \<not> fails (DeletePlatform (merge_id dup)) \<and> \<not> fails Commit \<longrightarrow>
            count_apps (keep_id dup) (fst (cleanup_pairs fails now [dup] db)) =
              count_apps (keep_id dup) db + count_apps (merge_id dup) db
            \<and> merge_id dup \<notin> platform_ids (fst (cleanup_pairs fails now [dup] db))
            \<and> references_ok (fst (cleanup_pairs fails now [dup] db)))
       \<and> (fails Begin \<or> fails (CountApps (merge_id dup))
          \<or> (0 < count_apps (merge_id dup) db \<and> fails (MoveApps (keep_id dup) (merge_id dup)))
          \<or> fails (DeletePlatform (merge_id dup)) \<or> fails Commit \<longrightarrow>
            cleanup_pairs fails now [dup] db = (db, Raised))"
proof (intro conjI impI)
  assume ok: "\<not> fails Begin \<and> \<not> fails (CountApps (merge_id dup))
          \<and> \<not> fails (MoveApps (keep_id dup) (merge_id dup))
          \<and> \<not> fails (DeletePlatform (merge_id dup)) \<and> \<not> fails Commit"
  then have "merge_loop fails now [dup] db 0 =
      merge_loop fails now [] (merge_pair now dup db) (0 + count_apps (merge_id dup) db)"
    by (intro merge_loop_step_ok) auto
  with ok have res: "fst (cleanup_pairs fails now [dup] db) = merge_pair now dup db"
    by (simp add: cleanup_pairs_def Let_def connect_def commit_def rollback_def)
  show "count_apps (keep_id dup) (fst (cleanup_pairs fails now [dup] db)) =
              count_apps (keep_id dup) db + count_apps (merge_id dup) db"
    unfolding res by (rule merge_pair_count [OF assms(1)])
  show "merge_id dup \<notin> platform_ids (fst (cleanup_pairs fails now [dup] db))"
    unfolding res by (rule merge_pair_deleted)
  show "references_ok (fst (cleanup_pairs fails now [dup] db))"
    unfolding res by (rule merge_pair_references [OF assms])
next
  assume bad: "fails Begin \<or> fails (CountApps (merge_id dup))
          \<or> (0 < count_apps (merge_id dup) db \<and> fails (MoveApps (keep_id dup) (merge_id dup)))
          \<or> fails (DeletePlatform (merge_id dup)) \<or> fails Commit"
  show "cleanup_pairs fails now [dup] db = (db, Raised)"
  proof (cases "fails (CountApps (merge_id dup)) \<or> fails (DeletePlatform (merge_id dup))
           \<or> (0 < count_apps (merge_id dup) db \<and> fails (MoveApps (keep_id dup) (merge_id dup)))")
    case True
    then obtain e where "merge_loop fails now [dup] db 0 = Inl e"
      using merge_loop_step_fail [of fails dup db now "[]" 0] by blast
    then show ?thesis by (simp add: cleanup_pairs_def Let_def connect_def rollback_def)
  next
    case False
    with bad have bc: "fails Begin \<or> fails Commit" by blast
    from False have "merge_loop fails now [dup] db 0 =
      merge_loop fails now [] (merge_pair now dup db) (0 + count_apps (merge_id dup) db)"
      by (intro merge_loop_step_ok) auto
    with bc show ?thesis by (auto simp: cleanup_pairs_def Let_def connect_def rollback_def)
  qed
qed

text \<open>
  C4 (as the code has it). The whole list of pairs runs in one transaction. If BEGIN or
  COMMIT raises, or if a statement executed for any one pair of the list raises (its count
  query, its DELETE, or its UPDATE when the pair has applications to move at that point
  of the run), the run raises and the database is exactly what it was before the run:
  the pairs before the failing one are rolled back with it and the pairs after it are not
  processed. If none of these raises, every pair of the list is merged, in order, and
  committed; the run then raises only if the statistics query after COMMIT does, and the
  merges stay committed all the same.
\<close>

theorem cleanup_single_transaction:
  "(fails Begin \<or> fails Commit \<longrightarrow> cleanup_pairs fails now dups db = (db, Raised))
   \<and> (fails (CountApps (merge_id dup)) \<or> fails (DeletePlatform (merge_id dup))
       \<or> (fails (MoveApps (keep_id dup) (merge_id dup))
           \<and> 0 < count_apps (merge_id dup) (fold (merge_pair now) before db)) \<longrightarrow>
      cleanup_pairs fails now (before @ dup # rest) db = (db, Raised))
   \<and> (\<not> fails Begin \<and> \<not> fails Commit
       \<and> (\<forall>before p rest. dups = before @ p # rest \<longrightarrow>
             \<not> fails (CountApps (merge_id p)) \<and> \<not> fails (DeletePlatform (merge_id p))
             \<and> (0 < count_apps (merge_id p) (fold (merge_pair now) before db) \<longrightarrow>
                  \<not> fails (MoveApps (keep_id p) (merge_id p)))) \<longrightarrow>
      cleanup_pairs fails now dups db =
        (fold (merge_pair now) dups db, if fails PlatformStats then Raised else Completed))"
proof (intro conjI impI)
  assume "fails Begin \<or> fails Commit"
  then show "cleanup_pairs fails now dups db = (db, Raised)"
    by (cases "merge_loop fails now dups db 0")
      (auto simp: cleanup_pairs_def Let_def connect_def rollback_def)
next
  assume "fails (CountApps (merge_id dup)) \<or> fails (DeletePlatform (merge_id dup))
       \<or> (fails (MoveApps (keep_id dup) (merge_id dup))
           \<and> 0 < count_apps (merge_id dup) (fold (merge_pair now) before db))"
  then obtain e where "merge_loop fails now (before @ dup # rest) db 0 = Inl e"
    using merge_loop_fail_executed by blast
  then show "cleanup_pairs fails now (before @ dup # rest) db = (db, Raised)"
    by (simp add: cleanup_pairs_def Let_def connect_def rollback_def)
next
  assume a: "\<not> fails Begin \<and> \<not> fails Commit
       \<and> (\<forall>before p rest. dups = before @ p # rest \<longrightarrow>
             \<not> fails (CountApps (merge_id p)) \<and> \<not> fails (DeletePlatform (merge_id p))
             \<and> (0 < count_apps (merge_id p) (fold (merge_pair now) before db) \<longrightarrow>
                  \<not> fails (MoveApps (keep_id p) (merge_id p))))"
  then obtain m' where "merge_loop fails now dups db 0 = Inr (fold (merge_pair now) dups db, m')"
    using merge_loop_none_executed_fails [of dups fails now db 0] by blast
  with a show "cleanup_pairs fails now dups db =
        (fold (merge_pair now) dups db, if fails PlatformStats then Raised else Completed)"
    by (simp add: cleanup_pairs_def Let_def connect_def commit_def rollback_def)
qed

text \<open>
  C4 (as the specification words it) fails on \<open>merge_db\<close> when the DELETE of the second
  pair (keep 16, merge 3) raises: the run ends with the database unchanged, so platform 6
  of the first pair is still there although its merge had gone through, and platform 2 of
  the third pair is still there because the loop never reached it. Without a failure the
  three merged platforms are gone.
\<close>

theorem per_pair_rollback_counterexample:
  "cleanup_platform_duplicates fail_delete_3 ''t1'' merge_db = (merge_db, Raised)
   \<and> 6 \<in> platform_ids (fst (cleanup_platform_duplicates fail_delete_3 ''t1'' merge_db))
   \<and> 2 \<in> platform_ids (fst (cleanup_platform_duplicates fail_delete_3 ''t1'' merge_db))
   \<and> platform_ids (fst (cleanup_platform_duplicates no_faults ''t1'' merge_db)) = {12, 15, 16}"
  by (simp add: cleanup_platform_duplicates_def cleanup_pairs_def duplicates_to_merge_def
      no_faults_def fail_delete_3_def merge_db_def connect_def commit_def rollback_def count_apps_def
      move_apps_def delete_platform_def platform_ids_def merge_loop.simps Let_def)

text \<open>
  The Bolt pair on \<open>merge_db\<close>: without a failure platform 16 owns the one application of
  platform 3 afterwards; when the DELETE raises the database is what it was.
\<close>

theorem merge_platforms_atomic_witness:
  "keep_id bolt_pair \<noteq> merge_id bolt_pair \<and> keep_id bolt_pair \<in> platform_ids merge_db
   \<and> references_ok merge_db
   \<and> count_apps 16 merge_db = 0 \<and> count_apps 3 merge_db = 1
   \<and> count_apps 16 (fst (cleanup_pairs no_faults ''t1'' [bolt_pair] merge_db)) = 1
   \<and> 3 \<notin> platform_ids (fst (cleanup_pairs no_faults ''t1'' [bolt_pair] merge_db))
   \<and> references_ok (fst (cleanup_pairs no_faults ''t1'' [bolt_pair] merge_db))
   \<and> cleanup_pairs fail_delete_3 ''t1'' [bolt_pair] merge_db = (merge_db, Raised)"
proof -
  have h1: "keep_id bolt_pair \<noteq> merge_id bolt_pair" by (simp add: bolt_pair_def)
  have h2: "keep_id bolt_pair \<in> platform_ids merge_db"
    by (simp add: bolt_pair_def platform_ids_def merge_db_def)
  have h3: "references_ok merge_db"
    by (simp add: references_ok_def platform_ids_def merge_db_def)
  have c: "count_apps 16 merge_db = 0" "count_apps 3 merge_db = 1"
    by (simp_all add: count_apps_def merge_db_def)
  have ids: "keep_id bolt_pair = 16" "merge_id bolt_pair = 3" by (simp_all add: bolt_pair_def)
  show ?thesis
    using merge_platforms_atomic [OF h1 h2 h3, where fails = no_faults and now = "''t1''"]
      merge_platforms_atomic [OF h1 h2 h3, where fails = fail_delete_3 and now = "''t1''"]
      h1 h2 h3 c
    by (simp add: ids no_faults_def fail_delete_3_def)
qed

text \<open>
  The three pairs of the script on \<open>merge_db\<close>: a failing COMMIT, a failing DELETE or a
  failing UPDATE for the middle pair undoes the run; without a failure the run is the three
  merges in order; a failing statistics query leaves the three merges committed.
\<close>

theorem cleanup_single_transaction_witness:
  "fail_commit Commit
   \<and> cleanup_pairs fail_commit ''t1'' duplicates_to_merge merge_db = (merge_db, Raised)
   \<and> fail_delete_3 (DeletePlatform (merge_id bolt_pair))
   \<and> cleanup_pairs fail_delete_3 ''t1'' ([github_pair] @ bolt_pair # [lovable_pair]) merge_db =
       (merge_db, Raised)
   \<and> fail_move_bolt (MoveApps (keep_id bolt_pair) (merge_id bolt_pair))
   \<and> 0 < count_apps (merge_id bolt_pair) (fold (merge_pair ''t1'') [github_pair] merge_db)
   \<and> cleanup_pairs fail_move_bolt ''t1'' ([github_pair] @ bolt_pair # [lovable_pair]) merge_db =
       (merge_db, Raised)
   \<and> cleanup_pairs no_faults ''t1'' duplicates_to_merge merge_db =
       (fold (merge_pair ''t1'') duplicates_to_merge merge_db, Completed)
   \<and> cleanup_pairs fail_stats ''t1'' duplicates_to_merge merge_db =
       (fold (merge_pair ''t1'') duplicates_to_merge merge_db, Raised)
   \<and> platform_ids (fold (merge_pair ''t1'') duplicates_to_merge merge_db) = {12, 15, 16}"
proof -
  have c: "fail_commit Begin \<or> fail_commit Commit" "fail_commit Commit"
    by (simp_all add: fail_commit_def)
  have f: "fail_delete_3 (DeletePlatform (merge_id bolt_pair))"
    by (simp add: fail_delete_3_def bolt_pair_def)
  have mv: "fail_move_bolt (MoveApps (keep_id bolt_pair) (merge_id bolt_pair))"
    by (simp add: fail_move_bolt_def bolt_pair_def)
  have cnt: "0 < count_apps (merge_id bolt_pair) (fold (merge_pair ''t1'') [github_pair] merge_db)"
    by (simp add: merge_pair_def delete_platform_def move_apps_def count_apps_def merge_db_def
        bolt_pair_def github_pair_def)
  have n: "\<not> no_faults Begin \<and> \<not> no_faults Commit
       \<and> (\<forall>before p rest. duplicates_to_merge = before @ p # rest \<longrightarrow>
             \<not> no_faults (CountApps (merge_id p)) \<and> \<not> no_faults (DeletePlatform (merge_id p))
             \<and> (0 < count_apps (merge_id p) (fold (merge_pair ''t1'') before merge_db) \<longrightarrow>
                  \<not> no_faults (MoveApps (keep_id p) (merge_id p))))"
    by (simp add: no_faults_def)
  have st: "\<not> fail_stats Begin \<and> \<not> fail_stats Commit
       \<and> (\<forall>before p rest. duplicates_to_merge = before @ p # rest \<longrightarrow>
             \<not> fail_stats (CountApps (merge_id p)) \<and> \<not> fail_stats (DeletePlatform (merge_id p))
             \<and> (0 < count_apps (merge_id p) (fold (merge_pair ''t1'') before merge_db) \<longrightarrow>
                  \<not> fail_stats (MoveApps (keep_id p) (merge_id p))))"
    by (simp add: fail_stats_def)
  have nf: "\<not> no_faults PlatformStats" "fail_stats PlatformStats"
    by (simp_all add: no_faults_def fail_stats_def)
  have p: "platform_ids (fold (merge_pair ''t1'') duplicates_to_merge merge_db) = {12, 15, 16}"
    by (simp add: duplicates_to_merge_def merge_pair_def delete_platform_def move_apps_def
        merge_db_def platform_ids_def)
  have r1: "cleanup_pairs fail_commit ''t1'' duplicates_to_merge merge_db = (merge_db, Raised)"
    using cleanup_single_transaction [where fails = fail_commit and dups = duplicates_to_merge
        and db = merge_db and now = "''t1''" and dup = bolt_pair and before = "[]"
        and rest = "[]"] c(1)
    by blast
  have r2: "cleanup_pairs fail_delete_3 ''t1'' ([github_pair] @ bolt_pair # [lovable_pair]) merge_db =
       (merge_db, Raised)"
    using cleanup_single_transaction [where fails = fail_delete_3 and dup = bolt_pair
        and before = "[github_pair]" and rest = "[lovable_pair]" and db = merge_db
        and now = "''t1''" and dups = "[]"] f
    by blast
  have r3: "cleanup_pairs fail_move_bolt ''t1'' ([github_pair] @ bolt_pair # [lovable_pair]) merge_db =
       (merge_db, Raised)"
    using cleanup_single_transaction [where fails = fail_move_bolt and dup = bolt_pair
        and before = "[github_pair]" and rest = "[lovable_pair]" and db = merge_db
        and now = "''t1''" and dups = "[]"] mv cnt
    by blast
  have r4: "cleanup_pairs no_faults ''t1'' duplicates_to_merge merge_db =
       (fold (merge_pair ''t1'') duplicates_to_merge merge_db, Completed)"
    using cleanup_single_transaction [where fails = no_faults and dups = duplicates_to_merge
        and db = merge_db and now = "''t1''" and dup = bolt_pair and before = "[]"
        and rest = "[]"] n nf(1)
    by simp
  have r5: "cleanup_pairs fail_stats ''t1'' duplicates_to_merge merge_db =
       (fold (merge_pair ''t1'') duplicates_to_merge merge_db, Raised)"
    using cleanup_single_transaction [where fails = fail_stats and dups = duplicates_to_merge
        and db = merge_db and now = "''t1''" and dup = bolt_pair and before = "[]"
        and rest = "[]"] st nf(2)
    by simp
  from c(2) f mv cnt p r1 r2 r3 r4 r5 show ?thesis by simp
qed

subsection \<open>Pagination and rate limits\<close>

lemma search_code_loop_403:
  "status_of (source t page) = Some 403 \<Longrightarrow>
   search_code_loop source per_page max_results t page all_files trace =
   search_code_loop source per_page max_results (Suc t) page all_files
     (trace @ [Get page, Sleep 60])"
  by (subst search_code_loop.simps) (auto split: response.splits)

lemma search_code_loop_retries:
  "(\<forall>i<n. status_of (source (t + i) page) = Some 403) \<Longrightarrow>
   search_code_loop source per_page max_results t page all_files trace =
   search_code_loop source per_page max_results (t + n) page all_files (trace @ retries page n)"
proof (induction n arbitrary: t trace)
  case 0
  show ?case by simp
next
  case (Suc n)
  have first: "status_of (source t page) = Some 403" using Suc.prems by force
  have rest: "\<forall>i<n. status_of (source (Suc t + i) page) = Some 403"
    using Suc.prems by (metis Suc_less_eq add_Suc_right add_Suc)
  show ?case
    using search_code_loop_403 [of source t page per_page max_results all_files trace, OF first]
      Suc.IH [of "Suc t" "trace @ [Get page, Sleep 60]", OF rest] by simp
qed

lemma search_code_loop_forever:
  assumes "\<forall>t. status_of (source t page) = Some 403"
  shows "search_code_loop source per_page max_results t page all_files trace = None"
proof (rule ccontr)
  assume "search_code_loop source per_page max_results t page all_files trace \<noteq> None"
  then obtain y where y: "search_code_loop source per_page max_results t page all_files trace = Some y"
    by auto
  from y have "\<not> (\<forall>t. status_of (source t page) = Some 403)"
  proof (rule search_code_loop.raw_induct [rotated,
        where P = "\<lambda>s pp mr t p a tr y. \<not> (\<forall>t. status_of (s t p) = Some 403)"], goal_cases)
    case (1 loop s pp mr t p a tr y)
    show ?case
    proof
      assume all: "\<forall>t. status_of (s t p) = Some 403"
      then obtain items where "s t p = Response 403 items"
        by (cases "s t p") (auto dest: spec [of _ t])
      then have "loop s pp mr (Suc t) p a (tr @ [Get p, Sleep 60]) = Some y"
        using 1(2) by simp
      then have "\<not> (\<forall>t. status_of (s t p) = Some 403)" by (rule 1(1))
      with all show False by simp
    qed
  qed
  with assms show False by simp
qed

lemma search_code_loop_abort:
  "status_of (source t page) = Some status \<Longrightarrow> status \<noteq> 403 \<Longrightarrow> status \<noteq> 200 \<Longrightarrow>
   search_code_loop source per_page max_results t page all_files trace =
     Some (all_files, trace @ [Get page])"
  by (subst search_code_loop.simps) (auto split: response.splits)

lemma fetch_all_prs_loop_abort:
  "status_of (source t page) = Some 403 \<or> status_of (source t page) = Some 429 \<Longrightarrow>
   fetch_all_prs_loop source t page all_prs trace = (all_prs, trace @ [Get page])"
  by (subst fetch_all_prs_loop.simps)
    (auto simp: raises_for_status_def split: response.splits elim!: status_of.elims)

text \<open>
  C8 (as the code has it). \<open>search_code_files\<close> answers a 403 by sleeping 60 seconds and
  asking for the same page again, and it does so as often as the 403 comes: after \<open>n\<close>
  rate-limited attempts in a row it stands at the same page with \<open>n\<close> sleeps behind it,
  and when every attempt is rate-limited it never returns. A 429 is not retried: the loop
  ends at once with what has been collected. \<open>fetch_all_prs_api\<close> retries neither: a 403
  or 429 ends its loop at once, without a sleep.
\<close>

theorem rate_limit_policy:
  "((\<forall>i<n. status_of (source (t + i) page) = Some 403) \<longrightarrow>
      search_code_loop source per_page max_results t page all_files trace =
      search_code_loop source per_page max_results (t + n) page all_files
        (trace @ retries page n))
   \<and> ((\<forall>t. status_of (source t page) = Some 403) \<longrightarrow>
      search_code_loop source per_page max_results t page all_files trace = None)
   \<and> (status_of (source t page) = Some 429 \<longrightarrow>
      search_code_loop source per_page max_results t page all_files trace =
        Some (all_files, trace @ [Get page]))
   \<and> (status_of (source' t page) = Some 403 \<or> status_of (source' t page) = Some 429 \<longrightarrow>
      fetch_all_prs_loop source' t page all_prs trace = (all_prs, trace @ [Get page]))"
  using search_code_loop_retries [of n source t page per_page max_results all_files trace]
    search_code_loop_forever [of source page per_page max_results t all_files trace]
    search_code_loop_abort [of source t page 429 per_page max_results all_files trace]
    fetch_all_prs_loop_abort [of source' t page all_prs trace]
  by simp

text \<open>
  Two rate-limited attempts, a source that always answers 403, and one that always
  answers 429.
\<close>

theorem rate_limit_policy_witness:
  "status_of (twice_403 0 1) = Some 403 \<and> status_of (twice_403 1 1) = Some 403
   \<and> search_code_loop twice_403 100 None 0 1 [] [] =
       search_code_loop twice_403 100 None 2 1 [] [Get 1, Sleep 60, Get 1, Sleep 60]
   \<and> search_code_loop always_403 100 None 0 1 [] [] = None
   \<and> status_of (always_429 0 1) = Some 429
   \<and> search_code_loop always_429 100 None 0 1 [] [] = Some ([], [Get 1])
   \<and> fetch_all_prs_loop always_429 0 1 [] [] = ([], [Get 1])"
proof -
  have h1: "\<forall>i<Suc (Suc 0). status_of (twice_403 (0 + i) 1) = Some 403"
    by (simp add: twice_403_def)
  have h2: "\<forall>t. status_of (always_403 t 1) = Some 403" by (simp add: always_403_def)
  have h3: "status_of (always_429 0 1) = Some 429" by (simp add: always_429_def)
  have s: "status_of (twice_403 0 1) = Some 403" "status_of (twice_403 1 1) = Some 403"
    by (simp_all add: twice_403_def)
  show ?thesis
    using rate_limit_policy [where source = twice_403 and n = "Suc (Suc 0)" and t = 0
        and page = 1 and per_page = 100 and max_results = None and all_files = "[]"
        and trace = "[]" and source' = always_429 and all_prs = "[]"]
      rate_limit_policy [where source = always_403 and n = 0 and t = 0 and page = 1
        and per_page = 100 and max_results = None and all_files = "[]" and trace = "[]"
        and source' = always_429 and all_prs = "[]"]
      rate_limit_policy [where source = always_429 and n = 0 and t = 0 and page = 1
        and per_page = 100 and max_results = None and all_files = "[]" and trace = "[]"
        and source' = always_429 and all_prs = "[]"]
      h1 h2 h3 s
    by (simp add: numeral_2_eq_2)
qed

text \<open>
  C8 (as the specification words it) fails: when the first two attempts at page 1 are
  rate-limited and the third succeeds, \<open>search_code_files\<close> retries twice and returns the
  third answer instead of aborting after the second 403; against a source that always
  answers 403 it never returns; a 429 is answered without sleep or retry, and so is a 403
  in \<open>fetch_all_prs_api\<close>.
\<close>

theorem retry_once_counterexample:
  "search_code_files twice_403 100 None = Some ([7], [Get 1, Sleep 60, Get 1, Sleep 60, Get 1])
   \<and> search_code_files always_403 100 None = None
   \<and> search_code_files always_429 100 None = Some ([], [Get 1])
   \<and> fetch_all_prs_api always_403 = ([], [Get 1])"
proof -
  have a: "search_code_files twice_403 100 None = Some ([7], [Get 1, Sleep 60, Get 1, Sleep 60, Get 1])"
    by (simp add: search_code_files_def search_code_loop.simps twice_403_def)
  have b: "search_code_files always_403 100 None = None"
    unfolding search_code_files_def
    by (rule search_code_loop_forever) (simp add: always_403_def)
  have c: "search_code_files always_429 100 None = Some ([], [Get 1])"
    by (simp add: search_code_files_def search_code_loop.simps always_429_def)
  have d: "fetch_all_prs_api always_403 = ([], [Get 1])"
    by (simp add: fetch_all_prs_api_def fetch_all_prs_loop.simps always_403_def)
  from a b c d show ?thesis by simp
qed

lemma fetch_all_prs_loop_requests:
  "length (requests (snd (fetch_all_prs_loop source t page all_prs trace))) \<le>
   length (requests trace) + 1 + (999 - length all_prs) div 100"
proof (induction source t page all_prs trace rule: fetch_all_prs_loop.induct)
  case (1 source t page all_prs trace)
  let ?r = "fetch_jules_prs_api 100 (source t page)"
  show ?case
  proof (cases "fst ?r \<noteq> [] \<and> snd ?r \<and> \<not> 1000 \<le> length (all_prs @ fst ?r)")
    case True
    then have len: "length (fst ?r) = 100"
      by (cases "source t page") (auto split: if_splits)
    have step: "fetch_all_prs_loop source t page all_prs trace =
        fetch_all_prs_loop source (Suc t) (Suc page) (all_prs @ fst ?r)
          (trace @ [Get page, Sleep 1])"
      using True by (subst fetch_all_prs_loop.simps) (simp add: Let_def)
    have "length (requests (snd (fetch_all_prs_loop source (Suc t) (Suc page) (all_prs @ fst ?r)
          (trace @ [Get page, Sleep 1])))) \<le>
        length (requests (trace @ [Get page, Sleep 1])) + 1 + (999 - length (all_prs @ fst ?r)) div 100"
      using True by (intro "1.IH") auto
    moreover have "length all_prs \<le> 899" using True len by simp
    ultimately show ?thesis
      unfolding step by (simp add: requests_def len)
  next
    case False
    then show ?thesis
      by (subst fetch_all_prs_loop.simps) (auto simp: Let_def requests_def)
  qed
qed

lemma fetch_all_prs_api_requests: "length (requests (snd (fetch_all_prs_api source))) \<le> 10"
  using fetch_all_prs_loop_requests [of source 0 1 "[]" "[]"]
  by (simp add: fetch_all_prs_api_def requests_def)

lemma fetch_all_projects_loop_stops:
  "(\<forall>i<k. 1000 \<le> length (bolt_batch source (t + i))) \<Longrightarrow>
   length (bolt_batch source (t + k)) < 1000 \<Longrightarrow>
   fetch_all_projects_loop source t (1000 * t) all_projects trace =
     Some (all_projects @ bolt_batches source t k, trace @ bolt_trace t k)"
proof (induction k arbitrary: t all_projects trace)
  case 0
  then show ?case
    by (subst fetch_all_projects_loop.simps) (auto simp: Let_def bolt_batch_def)
next
  case (Suc k)
  have full: "1000 \<le> length (bolt_batch source t)" using Suc.prems(1) by force
  have rest: "\<forall>i<k. 1000 \<le> length (bolt_batch source (Suc t + i))"
    using Suc.prems(1) by (metis Suc_less_eq add_Suc_right add_Suc)
  have short: "length (bolt_batch source (Suc t + k)) < 1000" using Suc.prems(2) by simp
  have "fetch_all_projects_loop source t (1000 * t) all_projects trace =
        fetch_all_projects_loop source (Suc t) (1000 * t + 1000) (all_projects @ bolt_batch source t)
          (trace @ [Get (1000 * t), Sleep 1])"
    using full by (subst fetch_all_projects_loop.simps) (auto simp: Let_def bolt_batch_def)
  moreover have "1000 * t + 1000 = 1000 * Suc t" by simp
  ultimately have "fetch_all_projects_loop source t (1000 * t) all_projects trace =
        fetch_all_projects_loop source (Suc t) (1000 * Suc t) (all_projects @ bolt_batch source t)
          (trace @ [Get (1000 * t), Sleep 1])"
    by (simp only:)
  then show ?case
    using Suc.IH [OF rest short] by simp
qed

lemma fetch_all_projects_loop_forever:
  assumes "\<forall>k. 1000 \<le> length (bolt_batch source k)"
  shows "fetch_all_projects_loop source t (1000 * t) all_projects trace = None"
proof (rule ccontr)
  assume "fetch_all_projects_loop source t (1000 * t) all_projects trace \<noteq> None"
  then obtain y where y: "fetch_all_projects_loop source t (1000 * t) all_projects trace = Some y"
    by auto
  from y have "1000 * t = 1000 * t \<longrightarrow> \<not> (\<forall>k. 1000 \<le> length (bolt_batch source k))"
  proof (rule fetch_all_projects_loop.raw_induct [rotated,
        where P = "\<lambda>s t off a tr y. off = 1000 * t \<longrightarrow> \<not> (\<forall>k. 1000 \<le> length (bolt_batch s k))"],
      goal_cases)
    case (1 loop s t off a tr y)
    show ?case
    proof (intro impI notI)
      assume off: "off = 1000 * t" and all: "\<forall>k. 1000 \<le> length (bolt_batch s k)"
      then have full: "1000 \<le> length (fetch_gallery_projects (s t off))"
        by (simp add: bolt_batch_def)
      then have "loop s (Suc t) (off + 1000) (a @ fetch_gallery_projects (s t off))
          (tr @ [Get off, Sleep 1]) = Some y"
        using 1(2) by (auto simp: Let_def split: if_splits)
      then have "off + 1000 = 1000 * Suc t \<longrightarrow> \<not> (\<forall>k. 1000 \<le> length (bolt_batch s k))"
        by (rule 1(1))
      with off all show False by simp
    qed
  qed
  with assms show False by simp
qed

lemma search_code_loop_returns:
  assumes "\<forall>t p. status_of (source t p) \<noteq> Some 403"
  shows "search_code_loop source per_page max_results t page all_files trace \<noteq> None"
proof (induction "1000 - length all_files" arbitrary: t page all_files trace rule: less_induct)
  case less
  show ?case
  proof (cases "source t page")
    case RequestFailed
    then show ?thesis by (subst search_code_loop.simps) simp
  next
    case (Response status items)
    then have no403: "status \<noteq> 403" using assms [rule_format, of t page] by simp
    show ?thesis
    proof (cases "status = 200 \<and> items \<noteq> [] \<and> \<not> reached max_results (length (all_files @ items))
        \<and> \<not> length items < per_page \<and> \<not> 1000 \<le> length (all_files @ items)")
      case True
      then have "1000 - length (all_files @ items) < 1000 - length all_files"
        by (cases items) auto
      then have "search_code_loop source per_page max_results (Suc t) (Suc page)
          (all_files @ items) (trace @ [Get page, Sleep 2]) \<noteq> None"
        by (rule less)
      then show ?thesis
        using True Response no403 by (subst search_code_loop.simps) simp
    next
      case False
      then show ?thesis
        using Response no403 by (subst search_code_loop.simps) auto
    qed
  qed
qed

lemma jules_page_full: "snd (jules_page source k) \<Longrightarrow> length (fst (jules_page source k)) = 100"
  unfolding jules_page_def by (cases "source k (Suc k)") (auto split: if_splits)

lemma fetch_all_prs_loop_continue:
  assumes "snd (jules_page source t)" and "length all_prs + 100 < 1000"
  shows "fetch_all_prs_loop source t (Suc t) all_prs trace =
         fetch_all_prs_loop source (Suc t) (Suc (Suc t)) (all_prs @ fst (jules_page source t))
           (trace @ [Get (Suc t), Sleep 1])"
proof -
  have len: "length (fst (jules_page source t)) = 100" by (rule jules_page_full [OF assms(1)])
  then have ne: "fst (jules_page source t) \<noteq> []" by auto
  show ?thesis
    using assms len ne
    by (subst fetch_all_prs_loop.simps) (simp add: Let_def jules_page_def)
qed

lemma fetch_all_prs_loop_stops:
  "(\<forall>i<k. snd (jules_page source (t + i))) \<Longrightarrow> \<not> snd (jules_page source (t + k)) \<Longrightarrow>
   length all_prs + 100 * k < 1000 \<Longrightarrow>
   fetch_all_prs_loop source t (Suc t) all_prs trace =
     (all_prs @ jules_items source t k, trace @ jules_trace t k)"
proof (induction k arbitrary: t all_prs trace)
  case 0
  then show ?case
    by (subst fetch_all_prs_loop.simps) (simp add: Let_def jules_page_def)
next
  case (Suc k)
  have full: "snd (jules_page source t)" using Suc.prems(1) by force
  have rest: "\<forall>i<k. snd (jules_page source (Suc t + i))"
    using Suc.prems(1) by (metis Suc_less_eq add_Suc_right add_Suc)
  have last: "\<not> snd (jules_page source (Suc t + k))" using Suc.prems(2) by simp
  have len: "length (fst (jules_page source t)) = 100" by (rule jules_page_full [OF full])
  have room: "length (all_prs @ fst (jules_page source t)) + 100 * k < 1000"
    using Suc.prems(3) len by simp
  have "fetch_all_prs_loop source t (Suc t) all_prs trace =
        fetch_all_prs_loop source (Suc t) (Suc (Suc t)) (all_prs @ fst (jules_page source t))
          (trace @ [Get (Suc t), Sleep 1])"
    using Suc.prems(3) by (intro fetch_all_prs_loop_continue [OF full]) simp
  then show ?case
    using Suc.IH [OF rest last room] by simp
qed

lemma fetch_all_prs_loop_ceiling:
  "(\<forall>i\<le>k. snd (jules_page source (t + i))) \<Longrightarrow>
   length all_prs + 100 * k < 1000 \<Longrightarrow> 1000 \<le> length all_prs + 100 * Suc k \<Longrightarrow>
   fetch_all_prs_loop source t (Suc t) all_prs trace =
     (all_prs @ jules_items source t k, trace @ jules_trace t k @ [Sleep 1])"
proof (induction k arbitrary: t all_prs trace)
  case 0
  have full: "snd (jules_page source t)" using "0.prems"(1) by simp
  have len: "length (fst (jules_page source t)) = 100" by (rule jules_page_full [OF full])
  then have ne: "fst (jules_page source t) \<noteq> []" by auto
  show ?case
    using "0.prems" full len ne
    by (subst fetch_all_prs_loop.simps) (simp add: Let_def jules_page_def)
next
  case (Suc k)
  have full: "snd (jules_page source t)" using Suc.prems(1) by force
  have rest: "\<forall>i\<le>k. snd (jules_page source (Suc t + i))"
  proof (intro allI impI)
    fix i assume "i \<le> k"
    then have "Suc i \<le> Suc k" by simp
    then have "snd (jules_page source (t + Suc i))" using Suc.prems(1) by blast
    then show "snd (jules_page source (Suc t + i))" by simp
  qed
  have len: "length (fst (jules_page source t)) = 100" by (rule jules_page_full [OF full])
  have room: "length (all_prs @ fst (jules_page source t)) + 100 * k < 1000"
    using Suc.prems(2) len by simp
  have top: "1000 \<le> length (all_prs @ fst (jules_page source t)) + 100 * Suc k"
    using Suc.prems(3) len by simp
  have "fetch_all_prs_loop source t (Suc t) all_prs trace =
        fetch_all_prs_loop source (Suc t) (Suc (Suc t)) (all_prs @ fst (jules_page source t))
          (trace @ [Get (Suc t), Sleep 1])"
    using Suc.prems(2) by (intro fetch_all_prs_loop_continue [OF full]) simp
  then show ?case
    using Suc.IH [OF rest room top] by simp
qed

lemma fetch_all_prs_api_stops:
  "(\<forall>i<k. snd (jules_page source i)) \<Longrightarrow> \<not> snd (jules_page source k) \<Longrightarrow> k < 10 \<Longrightarrow>
   fetch_all_prs_api source = (jules_items source 0 k, jules_trace 0 k)"
  using fetch_all_prs_loop_stops [of k source 0 "[]" "[]"]
  by (simp add: fetch_all_prs_api_def)

lemma fetch_all_prs_api_ceiling:
  "(\<forall>i\<le>9. snd (jules_page source i)) \<Longrightarrow>
   fetch_all_prs_api source = (jules_items source 0 9, jules_trace 0 9 @ [Sleep 1])"
  using fetch_all_prs_loop_ceiling [of 9 source 0 "[]" "[]"]
  by (simp add: fetch_all_prs_api_def)

lemma search_code_loop_last:
  assumes "status_of (source t page) \<noteq> Some 403" and "\<not> full_page per_page (source t page)"
  shows "search_code_loop source per_page None t page all_files trace =
         Some (all_files @ kept_items (source t page), trace @ [Get page])"
  using assms
  by (subst search_code_loop.simps) (cases "source t page", auto)

lemma search_code_loop_full:
  assumes "full_page per_page (source t page)"
    and "length (all_files @ kept_items (source t page)) < 1000"
  shows "search_code_loop source per_page None t page all_files trace =
         search_code_loop source per_page None (Suc t) (Suc page)
           (all_files @ kept_items (source t page)) (trace @ [Get page, Sleep 2])"
  using assms
  by (subst search_code_loop.simps) (cases "source t page", auto)

lemma search_code_loop_full_ceiling:
  assumes "full_page per_page (source t page)"
    and "1000 \<le> length (all_files @ kept_items (source t page))"
  shows "search_code_loop source per_page None t page all_files trace =
         Some (all_files @ kept_items (source t page), trace @ [Get page, Sleep 2])"
  using assms
  by (subst search_code_loop.simps) (cases "source t page", auto)

lemma search_code_loop_stops:
  "(\<forall>i<k. full_page per_page (source (t + i) (page + i))) \<Longrightarrow>
   status_of (source (t + k) (page + k)) \<noteq> Some 403 \<Longrightarrow>
   \<not> full_page per_page (source (t + k) (page + k)) \<Longrightarrow>
   length (all_files @ search_items source t page k) < 1000 \<Longrightarrow>
   search_code_loop source per_page None t page all_files trace =
     Some (all_files @ search_items source t page (Suc k), trace @ search_trace page k)"
proof (induction k arbitrary: t page all_files trace)
  case 0
  then show ?case using search_code_loop_last [of source t page per_page all_files trace] by simp
next
  case (Suc k)
  have full: "full_page per_page (source t page)" using Suc.prems(1) by force
  have rest: "\<forall>i<k. full_page per_page (source (Suc t + i) (Suc page + i))"
    using Suc.prems(1) by (metis Suc_less_eq add_Suc_right add_Suc)
  have l1: "status_of (source (Suc t + k) (Suc page + k)) \<noteq> Some 403"
    and l2: "\<not> full_page per_page (source (Suc t + k) (Suc page + k))"
    using Suc.prems(2,3) by simp_all
  have room: "length ((all_files @ kept_items (source t page)) @
      search_items source (Suc t) (Suc page) k) < 1000"
    using Suc.prems(4) by simp
  then have small: "length (all_files @ kept_items (source t page)) < 1000" by simp
  show ?case
    using search_code_loop_full [of per_page source t page all_files trace, OF full small]
      Suc.IH [OF rest l1 l2 room]
    by simp
qed

lemma search_code_loop_ceiling:
  "(\<forall>i\<le>k. full_page per_page (source (t + i) (page + i))) \<Longrightarrow>
   length (all_files @ search_items source t page k) < 1000 \<Longrightarrow>
   1000 \<le> length (all_files @ search_items source t page (Suc k)) \<Longrightarrow>
   search_code_loop source per_page None t page all_files trace =
     Some (all_files @ search_items source t page (Suc k),
           trace @ search_trace page k @ [Sleep 2])"
proof (induction k arbitrary: t page all_files trace)
  case 0
  have full: "full_page per_page (source t page)" using "0.prems"(1) by simp
  show ?case
    using search_code_loop_full_ceiling [of per_page source t page all_files trace, OF full]
      "0.prems"(3) by simp
next
  case (Suc k)
  have full: "full_page per_page (source t page)" using Suc.prems(1) by force
  have rest: "\<forall>i\<le>k. full_page per_page (source (Suc t + i) (Suc page + i))"
  proof (intro allI impI)
    fix i assume "i \<le> k"
    then have "Suc i \<le> Suc k" by simp
    then have "full_page per_page (source (t + Suc i) (page + Suc i))"
      using Suc.prems(1) by blast
    then show "full_page per_page (source (Suc t + i) (Suc page + i))" by simp
  qed
  have room: "length ((all_files @ kept_items (source t page)) @
      search_items source (Suc t) (Suc page) k) < 1000"
    using Suc.prems(2) by simp
  then have small: "length (all_files @ kept_items (source t page)) < 1000" by simp
  have top: "1000 \<le> length ((all_files @ kept_items (source t page)) @
      search_items source (Suc t) (Suc page) (Suc k))"
    using Suc.prems(3) by simp
  show ?case
    using search_code_loop_full [of per_page source t page all_files trace, OF full small]
      Suc.IH [OF rest room top]
    by simp
qed

lemma search_code_files_stops:
  "(\<forall>i<k. full_page per_page (source i (Suc i))) \<Longrightarrow>
   status_of (source k (Suc k)) \<noteq> Some 403 \<Longrightarrow> \<not> full_page per_page (source k (Suc k)) \<Longrightarrow>
   length (search_items source 0 1 k) < 1000 \<Longrightarrow>
   search_code_files source per_page None =
     Some (search_items source 0 1 (Suc k), search_trace 1 k)"
  using search_code_loop_stops [of k per_page source 0 1 "[]" "[]"]
  by (simp add: search_code_files_def)

lemma search_code_files_ceiling:
  "(\<forall>i\<le>k. full_page per_page (source i (Suc i))) \<Longrightarrow>
   length (search_items source 0 1 k) < 1000 \<Longrightarrow>
   1000 \<le> length (search_items source 0 1 (Suc k)) \<Longrightarrow>
   search_code_files source per_page None =
     Some (search_items source 0 1 (Suc k), search_trace 1 k @ [Sleep 2])"
  using search_code_loop_ceiling [of k per_page source 0 1 "[]" "[]"]
  by (simp add: search_code_files_def)

text \<open>
  C9 (as the code has it). \<open>fetch_all_prs_api\<close> returns for every source, after at most 10
  requests: it stops at the first page that is empty or does not have exactly 100 items
  (\<open>has_more\<close> false), returning the pages up to it, and after ten pages of 100 it stops
  at the ceiling of 1000 results. \<open>fetch_all_projects\<close> has no ceiling: it stops exactly
  at the first batch that is empty or shorter than 1000, returning the batches up to it,
  and when every batch has 1000 records or more it never returns. \<open>search_code_files\<close>
  returns for every source that never answers 403; called without \<open>max_results\<close>, it
  stops exactly at the first page that is not rate-limited and is a failed request, a
  status other than 200, an empty page or a page shorter than \<open>per_page\<close>, returning the
  pages up to it, or, while the pages stay full, as soon as 1000 results are collected.
\<close>

theorem pagination_stops:
  "length (requests (snd (fetch_all_prs_api source))) \<le> 10
   \<and> ((\<forall>i<j. snd (jules_page source i)) \<and> \<not> snd (jules_page source j) \<and> j < 10 \<longrightarrow>
        fetch_all_prs_api source = (jules_items source 0 j, jules_trace 0 j))
   \<and> ((\<forall>i\<le>9. snd (jules_page source i)) \<longrightarrow>
        fetch_all_prs_api source = (jules_items source 0 9, jules_trace 0 9 @ [Sleep 1]))
   \<and> ((\<forall>i<k. 1000 \<le> length (bolt_batch source' i)) \<and> length (bolt_batch source' k) < 1000 \<longrightarrow>
        fetch_all_projects source' = Some (bolt_batches source' 0 k, bolt_trace 0 k))
   \<and> ((\<forall>k. 1000 \<le> length (bolt_batch source' k)) \<longrightarrow> fetch_all_projects source' = None)
   \<and> ((\<forall>t p. status_of (source'' t p) \<noteq> Some 403) \<longrightarrow>
        search_code_files source'' per_page max_results \<noteq> None)
   \<and> ((\<forall>i<n. full_page per_page (source'' i (Suc i)))
       \<and> status_of (source'' n (Suc n)) \<noteq> Some 403
       \<and> \<not> full_page per_page (source'' n (Suc n))
       \<and> length (search_items source'' 0 1 n) < 1000 \<longrightarrow>
        search_code_files source'' per_page None =
          Some (search_items source'' 0 1 (Suc n), search_trace 1 n))
   \<and> ((\<forall>i\<le>n. full_page per_page (source'' i (Suc i)))
       \<and> length (search_items source'' 0 1 n) < 1000
       \<and> 1000 \<le> length (search_items source'' 0 1 (Suc n)) \<longrightarrow>
        search_code_files source'' per_page None =
          Some (search_items source'' 0 1 (Suc n), search_trace 1 n @ [Sleep 2]))"
proof -
  have s1: "(\<forall>i<n. full_page per_page (source'' i (Suc i)))
       \<and> status_of (source'' n (Suc n)) \<noteq> Some 403
       \<and> \<not> full_page per_page (source'' n (Suc n))
       \<and> length (search_items source'' 0 1 n) < 1000 \<longrightarrow>
        search_code_files source'' per_page None =
          Some (search_items source'' 0 1 (Suc n), search_trace 1 n)"
    using search_code_files_stops [of n per_page source''] by blast
  have s2: "(\<forall>i\<le>n. full_page per_page (source'' i (Suc i)))
       \<and> length (search_items source'' 0 1 n) < 1000
       \<and> 1000 \<le> length (search_items source'' 0 1 (Suc n)) \<longrightarrow>
        search_code_files source'' per_page None =
          Some (search_items source'' 0 1 (Suc n), search_trace 1 n @ [Sleep 2])"
    using search_code_files_ceiling [of n per_page source''] by blast
  have rest: "length (requests (snd (fetch_all_prs_api source))) \<le> 10
   \<and> ((\<forall>i<j. snd (jules_page source i)) \<and> \<not> snd (jules_page source j) \<and> j < 10 \<longrightarrow>
        fetch_all_prs_api source = (jules_items source 0 j, jules_trace 0 j))
   \<and> ((\<forall>i\<le>9. snd (jules_page source i)) \<longrightarrow>
        fetch_all_prs_api source = (jules_items source 0 9, jules_trace 0 9 @ [Sleep 1]))
   \<and> ((\<forall>i<k. 1000 \<le> length (bolt_batch source' i)) \<and> length (bolt_batch source' k) < 1000 \<longrightarrow>
        fetch_all_projects source' = Some (bolt_batches source' 0 k, bolt_trace 0 k))
   \<and> ((\<forall>k. 1000 \<le> length (bolt_batch source' k)) \<longrightarrow> fetch_all_projects source' = None)
   \<and> ((\<forall>t p. status_of (source'' t p) \<noteq> Some 403) \<longrightarrow>
        search_code_files source'' per_page max_results \<noteq> None)"
    using fetch_all_prs_api_requests [of source]
      fetch_all_prs_api_stops [of j source]
      fetch_all_prs_api_ceiling [of source]
      fetch_all_projects_loop_stops [of k source' 0 "[]" "[]"]
      fetch_all_projects_loop_forever [of source' 0 "[]" "[]"]
      search_code_loop_returns [of source'' per_page max_results 0 1 "[]" "[]"]
    by (simp add: fetch_all_projects_def search_code_files_def)
  from rest s1 s2 show ?thesis by (intro conjI) (elim conjE, assumption)+
qed

text \<open>
  A source with one full page of 1000 followed by pages of three records, a source whose
  pages are always full, a source with pages of exactly 100, a source with 100 records and
  then three, and a source with pages of 250.
\<close>

theorem pagination_stops_witness:
  "1000 \<le> length (bolt_batch two_pages 0) \<and> length (bolt_batch two_pages 1) < 1000
   \<and> fetch_all_projects two_pages =
       Some (replicate 1000 0 @ [1, 2, 3], [Get 0, Sleep 1, Get 1000])
   \<and> 1000 \<le> length (bolt_batch always_full 0)
   \<and> fetch_all_projects always_full = None
   \<and> status_of (two_pages 0 1) = Some 200
   \<and> search_code_files two_pages 1000 None \<noteq> None
   \<and> length (requests (snd (fetch_all_prs_api two_pages))) \<le> 10
   \<and> \<not> snd (jules_page two_pages 0)
   \<and> fetch_all_prs_api two_pages = (replicate 1000 0, [Get 1])
   \<and> snd (jules_page ten_full_pages 9)
   \<and> length (fst (fetch_all_prs_api ten_full_pages)) = 1000
   \<and> requests (snd (fetch_all_prs_api ten_full_pages)) = [1, 2, 3, 4, 5, 6, 7, 8, 9, 10]
   \<and> full_page 100 (hundred_then_three 0 1) \<and> \<not> full_page 100 (hundred_then_three 1 2)
   \<and> search_code_files hundred_then_three 100 None =
       Some (replicate 100 0 @ [1, 2, 3], [Get 1, Sleep 2, Get 2])
   \<and> full_page 100 (pages_of_250 3 4)
   \<and> map_option (length \<circ> fst) (search_code_files pages_of_250 100 None) = Some 1000
   \<and> map_option snd (search_code_files pages_of_250 100 None) =
       Some [Get 1, Sleep 2, Get 2, Sleep 2, Get 3, Sleep 2, Get 4, Sleep 2]"
proof -
  have b: "bolt_batch two_pages 0 = replicate 1000 0" "bolt_batch two_pages (Suc 0) = [1, 2, 3]"
    by (simp_all add: bolt_batch_def two_pages_def raises_for_status_def)
  have h1: "(\<forall>i<Suc 0. 1000 \<le> length (bolt_batch two_pages i))
      \<and> length (bolt_batch two_pages (Suc 0)) < 1000"
    by (simp add: b)
  have f: "bolt_batch always_full k = replicate 1000 0" for k
    by (simp add: bolt_batch_def always_full_def raises_for_status_def)
  have h2: "\<forall>k. 1000 \<le> length (bolt_batch always_full k)" by (simp add: f)
  have h3: "\<forall>t p. status_of (two_pages t p) \<noteq> Some 403" by (simp add: two_pages_def)
  have s: "status_of (two_pages 0 1) = Some 200" by (simp add: two_pages_def)
  have j: "jules_page two_pages 0 = (replicate 1000 0, False)"
    by (simp add: jules_page_def two_pages_def raises_for_status_def)
  have p: "jules_page ten_full_pages i = (replicate 100 (Suc i), True)" for i
    by (simp add: jules_page_def ten_full_pages_def raises_for_status_def)
  have h4: "\<forall>i\<le>9. snd (jules_page ten_full_pages i)" by (simp add: p)
  have ht: "hundred_then_three 0 (Suc 0) = Response 200 (replicate 100 0)"
      "hundred_then_three (Suc 0) (Suc (Suc 0)) = Response 200 [1, 2, 3]"
    by (simp_all add: hundred_then_three_def)
  have h5: "(\<forall>i<Suc 0. full_page 100 (hundred_then_three i (Suc i)))
       \<and> status_of (hundred_then_three (Suc 0) (Suc (Suc 0))) \<noteq> Some 403
       \<and> \<not> full_page 100 (hundred_then_three (Suc 0) (Suc (Suc 0)))
       \<and> length (search_items hundred_then_three 0 1 (Suc 0)) < 1000"
    by (simp add: ht)
  have pg: "pages_of_250 t page = Response 200 (replicate 250 page)" for t page
    by (simp add: pages_of_250_def)
  have h6: "(\<forall>i\<le>3. full_page 100 (pages_of_250 i (Suc i)))
       \<and> length (search_items pages_of_250 0 1 3) < 1000
       \<and> 1000 \<le> length (search_items pages_of_250 0 1 (Suc 3))"
    by (simp add: pg eval_nat_numeral)
  have two: "fetch_all_projects two_pages =
       Some (replicate 1000 0 @ [1, 2, 3], [Get 0, Sleep 1, Get 1000])
     \<and> search_code_files two_pages 1000 None \<noteq> None
     \<and> length (requests (snd (fetch_all_prs_api two_pages))) \<le> 10
     \<and> fetch_all_prs_api two_pages = (replicate 1000 0, [Get 1])"
    using pagination_stops [where source = two_pages and source' = two_pages and k = "Suc 0"
        and j = 0 and source'' = two_pages and per_page = 1000 and max_results = None
        and n = 0]
      h1 h3 j
    by (simp add: b requests_def)
  have full: "fetch_all_projects always_full = None"
    using pagination_stops [where source' = always_full and source = two_pages and k = 0
        and j = 0 and source'' = two_pages and per_page = 1000 and max_results = None
        and n = 0] h2
    by simp
  have ten: "fetch_all_prs_api ten_full_pages =
      (jules_items ten_full_pages 0 9, jules_trace 0 9 @ [Sleep 1])"
    using pagination_stops [where source = ten_full_pages and source' = always_full and k = 0
        and j = 0 and source'' = two_pages and per_page = 1000 and max_results = None
        and n = 0] h4
    by simp
  have ten_len: "length (fst (fetch_all_prs_api ten_full_pages)) = 1000"
    unfolding ten by (simp add: p eval_nat_numeral)
  have ten_req: "requests (snd (fetch_all_prs_api ten_full_pages)) = [1, 2, 3, 4, 5, 6, 7, 8, 9, 10]"
    unfolding ten by (simp add: requests_def eval_nat_numeral)
  have short: "search_code_files hundred_then_three 100 None =
       Some (search_items hundred_then_three 0 1 (Suc (Suc 0)), search_trace 1 (Suc 0))"
    using pagination_stops [where source = two_pages and source' = always_full and k = 0
        and j = 0 and source'' = hundred_then_three and per_page = 100 and max_results = None
        and n = "Suc 0"] h5
    by blast
  have ceil: "search_code_files pages_of_250 100 None =
       Some (search_items pages_of_250 0 1 (Suc 3), search_trace 1 3 @ [Sleep 2])"
    using pagination_stops [where source = two_pages and source' = always_full and k = 0
        and j = 0 and source'' = pages_of_250 and per_page = 100 and max_results = None
        and n = 3] h6
    by blast
  have short': "search_code_files hundred_then_three 100 None =
       Some (replicate 100 0 @ [1, 2, 3], [Get 1, Sleep 2, Get 2])"
    unfolding short by (simp add: ht)
  have ceil_len: "map_option (length \<circ> fst) (search_code_files pages_of_250 100 None) = Some 1000"
    unfolding ceil by (simp add: pg eval_nat_numeral)
  have ceil_tr: "map_option snd (search_code_files pages_of_250 100 None) =
       Some [Get 1, Sleep 2, Get 2, Sleep 2, Get 3, Sleep 2, Get 4, Sleep 2]"
    unfolding ceil by (simp add: eval_nat_numeral)
  have fp: "full_page 100 (hundred_then_three 0 1)" "\<not> full_page 100 (hundred_then_three 1 2)"
      "full_page 100 (pages_of_250 3 4)"
    by (simp_all add: hundred_then_three_def pg)
  show ?thesis
    using two full ten_len ten_req b f s j p short' ceil_len ceil_tr fp
    by (simp add: requests_def)
qed

text \<open>
  C9 (as the specification words it) fails for the Bolt scraper: against a source that
  answers every request with 1000 records, \<open>fetch_all_projects\<close> never returns.
\<close>

theorem full_pages_counterexample: "fetch_all_projects always_full = None"
  unfolding fetch_all_projects_def
  using fetch_all_projects_loop_forever [of always_full 0 "[]" "[]"]
  by (simp add: bolt_batch_def always_full_def raises_for_status_def)


subsection \<open>Normalizers\<close>

lemma dict_get_missing: "map_of d key = None \<Longrightarrow> dict_get d key dflt = dflt"
  by (simp add: dict_get_def)

lemma dict_get_Cons:
  "dict_get ((k, v) # d) key dflt = (if k = key then v else dict_get d key dflt)"
  by (simp add: dict_get_def)

lemma process_all_objects:
  "(\<And>d. process_project (JObj d) = Inr (record d)) \<Longrightarrow>
   process_all process_project (map JObj ds) = Inr (map record ds)"
  by (induction ds) simp_all

lemma lovable_field_read_all:
  "list_all (\<lambda>(field, key, dflt).
      dict_get (lovable_record project) field JNull = dict_get project key dflt) lovable_reads"
  by (simp add: lovable_reads_def lovable_record_def dict_get_Cons)

lemma lovable_field_read:
  "(field, key, dflt) \<in> set lovable_reads \<Longrightarrow>
   dict_get (lovable_record project) field JNull = dict_get project key dflt"
  using lovable_field_read_all [of project] unfolding list_all_iff by blast

lemma bolt_field_read_all:
  "list_all (\<lambda>(field, key, dflt).
      dict_get (bolt_record project) field JNull = dict_get project key dflt) bolt_reads"
  by (simp add: bolt_reads_def bolt_record_def dict_get_Cons)

lemma bolt_field_read:
  "(field, key, dflt) \<in> set bolt_reads \<Longrightarrow>
   dict_get (bolt_record project) field JNull = dict_get project key dflt"
  using bolt_field_read_all [of project] unfolding list_all_iff by blast

lemma lovable_reads_degraded: "(field, key, dflt) \<in> set lovable_reads \<Longrightarrow> dflt \<in> set degraded"
  unfolding lovable_reads_def degraded_def by auto

lemma bolt_reads_degraded: "(field, key, dflt) \<in> set bolt_reads \<Longrightarrow> dflt \<in> set degraded"
  unfolding bolt_reads_def degraded_def by auto

text \<open>
  C7 (as the code has it). On every raw record that is a JSON object the normalizers
  return a record and do not raise, and the list comprehension returns one output record
  per raw record, in order: nothing is dropped. Every output record has the full list of
  fields. Field by field: each field of the table holds \<open>project.get(key, default)\<close>, so
  when its key is missing it holds its default, and every default is an empty string,
  zero, false, an empty list or null; the Lovable title holds the \<open>name\<close>, else the
  \<open>title\<close>, else the empty string. In particular a raw record with none of \<open>title\<close>,
  \<open>name\<close>, \<open>url\<close>, \<open>link\<close> still yields a record, whose \<open>title\<close> and \<open>url\<close> are empty
  strings.
\<close>

theorem normalizer_total:
  "lovable_process_project (JObj project) = Inr (lovable_record project)
   \<and> bolt_process_project (JObj project) = Inr (bolt_record project)
   \<and> lovable_process_all (map JObj raw_projects) = Inr (map lovable_record raw_projects)
   \<and> bolt_process_all (map JObj raw_projects) = Inr (map bolt_record raw_projects)
   \<and> map fst (lovable_record project) = lovable_fields
   \<and> map fst (bolt_record project) = bolt_fields
   \<and> (\<forall>(field, key, dflt) \<in> set lovable_reads.
         dict_get (lovable_record project) field JNull = dict_get project key dflt
         \<and> (map_of project key = None \<longrightarrow> dict_get (lovable_record project) field JNull = dflt)
         \<and> dflt \<in> set degraded)
   \<and> (\<forall>(field, key, dflt) \<in> set bolt_reads.
         dict_get (bolt_record project) field JNull = dict_get project key dflt
         \<and> (map_of project key = None \<longrightarrow> dict_get (bolt_record project) field JNull = dflt)
         \<and> dflt \<in> set degraded)
   \<and> dict_get (lovable_record project) ''title'' JNull =
       dict_get project ''name'' (dict_get project ''title'' (JStr []))
   \<and> (map_of project ''name'' = None \<and> map_of project ''title'' = None \<longrightarrow>
        dict_get (lovable_record project) ''title'' JNull = JStr [])
   \<and> ((\<forall>key \<in> set [''title'', ''name'', ''url'', ''link'']. map_of project key = None) \<longrightarrow>
        dict_get (lovable_record project) ''title'' JNull = JStr []
        \<and> dict_get (lovable_record project) ''url'' JNull = JStr []
        \<and> dict_get (bolt_record project) ''title'' JNull = JStr [])"
proof (intro conjI)
  show "lovable_process_project (JObj project) = Inr (lovable_record project)" by simp
  show "bolt_process_project (JObj project) = Inr (bolt_record project)" by simp
  show "lovable_process_all (map JObj raw_projects) = Inr (map lovable_record raw_projects)"
    unfolding lovable_process_all_def by (rule process_all_objects) simp
  show "bolt_process_all (map JObj raw_projects) = Inr (map bolt_record raw_projects)"
    unfolding bolt_process_all_def by (rule process_all_objects) simp
  show "map fst (lovable_record project) = lovable_fields"
    by (simp add: lovable_record_def lovable_fields_def)
  show "map fst (bolt_record project) = bolt_fields"
    by (simp add: bolt_record_def bolt_fields_def)
  show "\<forall>(field, key, dflt) \<in> set lovable_reads.
         dict_get (lovable_record project) field JNull = dict_get project key dflt
         \<and> (map_of project key = None \<longrightarrow> dict_get (lovable_record project) field JNull = dflt)
         \<and> dflt \<in> set degraded"
    using lovable_field_read [of _ _ _ project] lovable_reads_degraded
    by (auto simp: dict_get_missing)
  show "\<forall>(field, key, dflt) \<in> set bolt_reads.
         dict_get (bolt_record project) field JNull = dict_get project key dflt
         \<and> (map_of project key = None \<longrightarrow> dict_get (bolt_record project) field JNull = dflt)
         \<and> dflt \<in> set degraded"
    using bolt_field_read [of _ _ _ project] bolt_reads_degraded
    by (auto simp: dict_get_missing)
  show t: "dict_get (lovable_record project) ''title'' JNull =
       dict_get project ''name'' (dict_get project ''title'' (JStr []))"
    by (simp add: lovable_record_def dict_get_Cons)
  show "map_of project ''name'' = None \<and> map_of project ''title'' = None \<longrightarrow>
        dict_get (lovable_record project) ''title'' JNull = JStr []"
    by (simp add: t dict_get_missing)
  show "(\<forall>key \<in> set [''title'', ''name'', ''url'', ''link'']. map_of project key = None) \<longrightarrow>
        dict_get (lovable_record project) ''title'' JNull = JStr []
        \<and> dict_get (lovable_record project) ''url'' JNull = JStr []
        \<and> dict_get (bolt_record project) ''title'' JNull = JStr []"
    by (simp add: dict_get_missing lovable_record_def bolt_record_def dict_get_Cons)
qed

text \<open>
  The raw record \<open>description_only\<close>: its missing \<open>remix_count\<close> and \<open>categories\<close>
  degrade to zero and the empty list, its \<open>edit_count\<close> is passed on.
\<close>

theorem normalizer_total_witness:
  "map_of description_only ''title'' = None \<and> map_of description_only ''name'' = None
   \<and> map_of description_only ''url'' = None \<and> map_of description_only ''link'' = None
   \<and> lovable_process_all [JObj description_only, JObj []] =
       Inr [lovable_record description_only, lovable_record []]
   \<and> dict_get (lovable_record description_only) ''title'' JNull = JStr []
   \<and> dict_get (lovable_record description_only) ''url'' JNull = JStr []
   \<and> dict_get (bolt_record description_only) ''title'' JNull = JStr []
   \<and> (''remix_count'', ''remix_count'', JInt 0) \<in> set lovable_reads
   \<and> map_of description_only ''remix_count'' = None
   \<and> dict_get (lovable_record description_only) ''remix_count'' JNull = JInt 0
   \<and> (''edit_count'', ''edit_count'', JInt 0) \<in> set lovable_reads
   \<and> dict_get (lovable_record description_only) ''edit_count'' JNull = JInt 4
   \<and> (''categories'', ''categories'', JList []) \<in> set bolt_reads
   \<and> map_of description_only ''categories'' = None
   \<and> dict_get (bolt_record description_only) ''categories'' JNull = JList []"
proof -
  have m: "map_of description_only ''title'' = None" "map_of description_only ''name'' = None"
    "map_of description_only ''url'' = None" "map_of description_only ''link'' = None"
    "map_of description_only ''remix_count'' = None" "map_of description_only ''categories'' = None"
    "dict_get description_only ''edit_count'' (JInt 0) = JInt 4"
    by (simp_all add: description_only_def dict_get_def)
  have r: "(''remix_count'', ''remix_count'', JInt 0) \<in> set lovable_reads"
    "(''edit_count'', ''edit_count'', JInt 0) \<in> set lovable_reads"
    by (simp_all add: lovable_reads_def)
  have b: "(''categories'', ''categories'', JList []) \<in> set bolt_reads"
    by (simp add: bolt_reads_def)
  note t = normalizer_total [of description_only "[description_only, []]"]
  note all = t [THEN conjunct2, THEN conjunct2, THEN conjunct1]
  note lr = t [THEN conjunct2, THEN conjunct2, THEN conjunct2, THEN conjunct2, THEN conjunct2, THEN conjunct2, THEN conjunct1]
  note br = t [THEN conjunct2, THEN conjunct2, THEN conjunct2, THEN conjunct2, THEN conjunct2, THEN conjunct2, THEN conjunct2, THEN conjunct1]
  note idl = t [THEN conjunct2, THEN conjunct2, THEN conjunct2, THEN conjunct2, THEN conjunct2, THEN conjunct2, THEN conjunct2, THEN conjunct2, THEN conjunct2, THEN conjunct2]
  have hyp: "\<forall>key \<in> set [''title'', ''name'', ''url'', ''link'']. map_of description_only key = None"
    using m by simp
  note id = mp [OF idl hyp]
  have f1: "dict_get (lovable_record description_only) ''remix_count'' JNull = JInt 0"
    using bspec [OF lr r(1)] m(5) by (simp add: dict_get_missing)
  have f2: "dict_get (lovable_record description_only) ''edit_count'' JNull = JInt 4"
    using bspec [OF lr r(2)] m(7) by simp
  have f3: "dict_get (bolt_record description_only) ''categories'' JNull = JList []"
    using bspec [OF br b] m(6) by (simp add: dict_get_missing)
  have all': "lovable_process_all [JObj description_only, JObj []] =
       Inr [lovable_record description_only, lovable_record []]"
    using all by simp
  show ?thesis
    by (intro conjI m(1) m(2) m(3) m(4) m(5) m(6) r b all' f1 f2 f3 id  [THEN conjunct1]
        id [THEN conjunct2, THEN conjunct1] id [THEN conjunct2, THEN conjunct2])
qed

text \<open>
  C7 (as the specification words it) fails on \<open>description_only\<close>: it lacks all of
  \<open>title\<close>, \<open>name\<close>, \<open>url\<close> and \<open>link\<close>, and both normalizers return a record for it.
\<close>

theorem record_not_dropped_counterexample:
  "map_of description_only ''title'' = None \<and> map_of description_only ''name'' = None
   \<and> map_of description_only ''url'' = None \<and> map_of description_only ''link'' = None
   \<and> lovable_process_all [JObj description_only] = Inr [lovable_record description_only]
   \<and> bolt_process_all [JObj description_only] = Inr [bolt_record description_only]
   \<and> dict_get (lovable_record description_only) ''description'' JNull =
       JStr ''no title, no name, no url, no link''
   \<and> dict_get (lovable_record description_only) ''title'' JNull = JStr []"
  by (simp add: description_only_def lovable_process_all_def bolt_process_all_def
      lovable_record_def dict_get_def)

end
